theory Spec2Isabelle
  imports Main "HOL-Library.Word"
begin

section \<open>Errors\<close>

text \<open>
  Every \<open>throw\<close>, \<open>assert\<close> and \<open>assertArgument\<close> of the modelled sources is one
  constructor; a function that can throw returns \<open>error + 'a\<close> with \<open>Inl\<close> the error.
\<close>

datatype error =
    InvalidShard                \<comment> \<open>\<open>Error('Invalid shard')\<close>\<close>
  | ShardTimeout                \<comment> \<open>\<open>Error('Timeout waiting for shard to be ready')\<close>\<close>
  | IncompletePath              \<comment> \<open>\<open>Error('Incomplete path for wallet derivation ...')\<close>\<close>
  | UnsupportedCoinType "int option"  \<comment> \<open>\<open>Error('Unsupported cointype ...')\<close>\<close>
  | InvalidPath                 \<comment> \<open>\<open>Error('Invalid path: ...')\<close>, \<open>invalid path\<close>\<close>
  | InvalidSeed                 \<comment> \<open>\<open>assertArgument(..., "invalid seed")\<close>\<close>
  | InvalidIndex                \<comment> \<open>\<open>assertArgument(index <= 0xffffffff, "invalid index")\<close>\<close>
  | NeuteredHardened            \<comment> \<open>hardened derivation without a private key\<close>
  | DepthTooDeep                \<comment> \<open>\<open>assert(depth < 256, "Depth too deep")\<close>\<close>
  | InvalidBase58               \<comment> \<open>a letter outside the Base58 alphabet\<close>
  | InvalidExtendedKey          \<comment> \<open>\<open>"invalid extended key"\<close>\<close>
  | InvalidExtendedKeyPrefix    \<comment> \<open>\<open>"invalid extended key prefix"\<close>\<close>
  | AddressExists nat           \<comment> \<open>\<open>Address for index ... already exists\<close>\<close>
  | NoZoneForIndex nat          \<comment> \<open>\<open>Failed to derive a valid address zone for the index ...\<close>\<close>
  | NotQuaiAddress string       \<comment> \<open>\<open>Address ... is not a valid Quai address\<close>\<close>
  | AddressMismatch string string
  | PublicKeyMismatch
  | ZoneMismatch
  | MissingPath                 \<comment> \<open>\<open>Error("Missing Path")\<close>\<close>
  | NoZoneProvided              \<comment> \<open>\<open>No zone provided for a Quai / Qi wallet\<close>\<close>
  | InvalidZone                 \<comment> \<open>\<open>Error("Invalid zone")\<close>\<close>
  | External string             \<comment> \<open>an error raised by a collaborator outside the modelled files\<close>

section \<open>Shards (\<open>constants/shards.ts\<close>)\<close>

text \<open>The enum \<open>Shard\<close>; \<open>Shard_value\<close> is the string each member stands for.\<close>

datatype Shard =
    Cyprus | Cyprus1 | Cyprus2 | Cyprus3
  | Paxos | Paxos1 | Paxos2 | Paxos3
  | Hydra | Hydra1 | Hydra2 | Hydra3
  | Prime

fun Shard_value :: "Shard \<Rightarrow> string" where
  "Shard_value Cyprus = ''0x0''"
| "Shard_value Cyprus1 = ''0x00''"
| "Shard_value Cyprus2 = ''0x01''"
| "Shard_value Cyprus3 = ''0x02''"
| "Shard_value Paxos = ''0x1''"
| "Shard_value Paxos1 = ''0x10''"
| "Shard_value Paxos2 = ''0x11''"
| "Shard_value Paxos3 = ''0x12''"
| "Shard_value Hydra = ''0x2''"
| "Shard_value Hydra1 = ''0x20''"
| "Shard_value Hydra2 = ''0x21''"
| "Shard_value Hydra3 = ''0x22''"
| "Shard_value Prime = ''0x''"

definition shardFromBytes :: "string \<Rightarrow> error + Shard" where
  "shardFromBytes shard =
     (if shard = ''0x00'' then Inr Cyprus1
      else if shard = ''0x01'' then Inr Cyprus2
      else if shard = ''0x02'' then Inr Cyprus3
      else if shard = ''0x10'' then Inr Paxos1
      else if shard = ''0x11'' then Inr Paxos2
      else if shard = ''0x12'' then Inr Paxos3
      else if shard = ''0x20'' then Inr Hydra1
      else if shard = ''0x21'' then Inr Hydra2
      else if shard = ''0x22'' then Inr Hydra3
      else Inl InvalidShard)"

text \<open>One entry of \<open>ShardData\<close>: \<open>{ name, nickname, shard, context, byte }\<close>.\<close>

record ShardEntry =
  entry_name :: string
  entry_nickname :: string
  entry_shard :: string
  entry_context :: nat
  entry_byte :: string

text \<open>
  \<open>ShardData = [...ZoneData, Cyprus, Paxos, Hydra, Prime]\<close>. The table \<open>ZoneData\<close> is
  imported from \<open>./zones.js\<close>, which is not among the sources; it is the parameter \<open>zoneData\<close>.
\<close>

definition ShardData :: "ShardEntry list \<Rightarrow> ShardEntry list" where
  "ShardData zoneData = zoneData @
     [\<lparr>entry_name = ''Cyprus'', entry_nickname = ''cyprus'', entry_shard = ''region-0'',
       entry_context = 2, entry_byte = ''0x0''\<rparr>,
      \<lparr>entry_name = ''Paxos'', entry_nickname = ''paxos'', entry_shard = ''region-1'',
       entry_context = 2, entry_byte = ''0x1''\<rparr>,
      \<lparr>entry_name = ''Hydra'', entry_nickname = ''hydra'', entry_shard = ''region-2'',
       entry_context = 2, entry_byte = ''0x2''\<rparr>,
      \<lparr>entry_name = ''Prime'', entry_nickname = ''prime'', entry_shard = ''prime'',
       entry_context = 2, entry_byte = ''0x''\<rparr>]"

text \<open>The predicate of \<open>ShardData.find\<close> in \<open>toShard\<close>.\<close>

definition shardMatches :: "string \<Rightarrow> ShardEntry \<Rightarrow> bool" where
  "shardMatches shard it \<longleftrightarrow>
     entry_name it = shard \<or> entry_byte it = shard \<or> entry_nickname it = shard \<or> entry_shard it = shard"

text \<open>\<open>shardFromBytes(ShardData.find(...)?.byte || '')\<close>\<close>

definition toShard :: "ShardEntry list \<Rightarrow> string \<Rightarrow> error + Shard" where
  "toShard zoneData shard =
     shardFromBytes
       (case find (shardMatches shard) (ShardData zoneData) of
          None \<Rightarrow> ''''
        | Some it \<Rightarrow> entry_byte it)"

text \<open>The nine zone-level members of \<open>Shard\<close>.\<close>

definition zoneShards :: "Shard set" where
  "zoneShards = {Cyprus1, Cyprus2, Cyprus3, Paxos1, Paxos2, Paxos3, Hydra1, Hydra2, Hydra3}"

text \<open>A \<open>ZoneData\<close> table as an example input: the first zone of each region.\<close>

definition exampleZoneData :: "ShardEntry list" where
  "exampleZoneData =
     [\<lparr>entry_name = ''Cyprus One'', entry_nickname = ''cyprus1'', entry_shard = ''zone-0-0'',
       entry_context = 2, entry_byte = ''0x00''\<rparr>,
      \<lparr>entry_name = ''Paxos One'', entry_nickname = ''paxos1'', entry_shard = ''zone-1-0'',
       entry_context = 2, entry_byte = ''0x10''\<rparr>,
      \<lparr>entry_name = ''Hydra One'', entry_nickname = ''hydra1'', entry_shard = ''zone-2-0'',
       entry_context = 2, entry_byte = ''0x20''\<rparr>]"

section \<open>Shard readiness (\<open>providers/provider-websocket.ts\<close>)\<close>

text \<open>
  \<open>readyMap\<close> is written by the \<open>onopen\<close> handlers while \<open>waitShardReady\<close> is suspended in
  its timer, so the loop sees a sequence of maps: \<open>readyMaps k\<close> is the map at the loop's
  \<open>k\<close>-th test of its condition. \<open>!this.readyMap.get(shard)\<close> holds for a missing key and for
  the value \<open>false\<close>.
\<close>

type_synonym readyMap = "Shard \<rightharpoonup> bool"

definition shardReady :: "readyMap \<Rightarrow> Shard \<Rightarrow> bool" where
  "shardReady m shard \<longleftrightarrow> m shard = Some True"

text \<open>
  The loop of \<open>waitShardReady\<close> from the state \<open>count\<close>; the result is how the promise
  settles, with the delays (in milliseconds) passed to \<open>setTimeout\<close>, in order.
\<close>

function waitShardReady_loop :: "(nat \<Rightarrow> readyMap) \<Rightarrow> Shard \<Rightarrow> nat \<Rightarrow> (error + unit) \<times> nat list" where
  "waitShardReady_loop readyMaps shard count =
     (if shardReady (readyMaps count) shard then (Inr (), [])
      else if count > 7 then (Inl ShardTimeout, [2 ^ count])
      else (case waitShardReady_loop readyMaps shard (count + 1) of
              (r, delays) \<Rightarrow> (r, 2 ^ count # delays)))"
  by pat_completeness auto
termination
  by (relation "measure (\<lambda>(readyMaps, shard, count). 8 - count)") auto

definition waitShardReady :: "(nat \<Rightarrow> readyMap) \<Rightarrow> Shard \<Rightarrow> (error + unit) \<times> nat list" where
  "waitShardReady readyMaps shard = waitShardReady_loop readyMaps shard 0"

text \<open>
  An example run: the \<open>onopen\<close> handler of \<open>Prime\<close> sets its flag while the loop is in its
  third sleep, so the tests 0, 1 and 2 see no flag and the test 3 sees it.
\<close>

definition exampleReadyMaps :: "nat \<Rightarrow> readyMap" where
  "exampleReadyMaps k = (if k < 3 then Map.empty else [Prime \<mapsto> True])"

section \<open>Bytes, numbers and strings (\<open>utils\<close>)\<close>

text \<open>
  The helpers of \<open>utils/index.js\<close> that the wallet files call are not among the sources.
  They are the usual conversions; each is written out below.
\<close>

type_synonym byte = "8 word"
type_synonym bytes = "byte list"

text \<open>Modelled from the spec: \<open>toBigInt\<close>, the value of a big-endian byte string.\<close>

definition toBigInt :: "bytes \<Rightarrow> nat" where
  "toBigInt bs = foldl (\<lambda>acc b. acc * 256 + unat b) 0 bs"

text \<open>
  Modelled from the spec: \<open>toBeArray\<close>, the shortest big-endian byte string of a value
  (the empty string for 0).
\<close>

fun toBeArray :: "nat \<Rightarrow> bytes" where
  "toBeArray n = (if n = 0 then [] else toBeArray (n div 256) @ [of_nat (n mod 256)])"

declare toBeArray.simps [simp del]

text \<open>
  Modelled from the spec: \<open>toBeHex(value, width)\<close>, the big-endian byte string of exactly
  \<open>width\<close> bytes; a value that does not fit is an error (\<open>value exceeds width\<close>).
\<close>

definition toBeHex :: "nat \<Rightarrow> nat \<Rightarrow> error + bytes" where
  "toBeHex v width =
     (if length (toBeArray v) \<le> width
      then Inr (replicate (width - length (toBeArray v)) 0 @ toBeArray v)
      else Inl (External ''value exceeds width''))"

text \<open>
  Modelled from the spec: \<open>zpad(value, length)\<close>, a field of the fixed extended-key layout:
  the value as \<open>length\<close> big-endian bytes.
\<close>

definition zpad :: "nat \<Rightarrow> nat \<Rightarrow> error + bytes" where
  "zpad v len = toBeHex v len"

text \<open>\<open>Array.prototype.slice(start, end)\<close> for \<open>0 \<le> start \<le> end\<close>: it clamps at the length.\<close>

definition byteSlice :: "'a list \<Rightarrow> nat \<Rightarrow> nat \<Rightarrow> 'a list" where
  "byteSlice xs start stop = take (stop - start) (drop start xs)"

text \<open>\<open>String.prototype.split("/")\<close> and \<open>Array.prototype.join("/")\<close>.\<close>

fun split_slash :: "string \<Rightarrow> string list" where
  "split_slash [] = [[]]"
| "split_slash (c # cs) =
     (if c = CHR ''/'' then [] # split_slash cs
      else (case split_slash cs of
              [] \<Rightarrow> [[c]]
            | s # ss \<Rightarrow> (c # s) # ss))"

fun join_slash :: "string list \<Rightarrow> string" where
  "join_slash [] = []"
| "join_slash [s] = s"
| "join_slash (s # ss) = s @ ''/'' @ join_slash ss"

text \<open>\<open>Number.prototype.toString()\<close> of a non-negative integer.\<close>

definition digit_char :: "nat \<Rightarrow> char" where
  "digit_char d = ''0123456789'' ! d"

fun string_of_nat :: "nat \<Rightarrow> string" where
  "string_of_nat n =
     (if n < 10 then [digit_char n] else string_of_nat (n div 10) @ [digit_char (n mod 10)])"

declare string_of_nat.simps [simp del]

text \<open>The apostrophe that marks a hardened path segment.\<close>

definition apostrophe :: char where
  "apostrophe = CHR 0x27"

section \<open>External collaborators\<close>

text \<open>
  The hash functions, the curve operations of \<open>SigningKey\<close>, \<open>computeAddress\<close>, the curve
  order \<open>N\<close> and the address classifiers are imported from files that are not among the
  sources. They are parameters, collected in one record. An operation that can throw
  (an invalid private key, an invalid point) returns a sum.
\<close>

record ext =
  computeHmac_sha512 :: "bytes \<Rightarrow> bytes \<Rightarrow> bytes"
    \<comment> \<open>\<open>computeHmac("sha512", key, data)\<close>\<close>
  sha256 :: "bytes \<Rightarrow> bytes"
  ripemd160 :: "bytes \<Rightarrow> bytes"
  signingKey_publicKey :: "bytes \<Rightarrow> error + bytes"
    \<comment> \<open>\<open>new SigningKey(key).publicKey\<close>, uncompressed\<close>
  signingKey_compressedPublicKey :: "bytes \<Rightarrow> error + bytes"
    \<comment> \<open>\<open>new SigningKey(key).compressedPublicKey\<close>\<close>
  addPoints :: "bytes \<Rightarrow> bytes \<Rightarrow> error + bytes"
    \<comment> \<open>\<open>SigningKey.addPoints(p0, p1, true)\<close>\<close>
  computeAddress :: "bytes \<Rightarrow> error + string"
  curveN :: nat
    \<comment> \<open>the constant \<open>N\<close>, the order of the curve\<close>
  getZoneForAddress :: "string \<Rightarrow> string option"
  isQuaiAddress :: "string \<Rightarrow> bool"
  getShardForAddress :: "string \<Rightarrow> ShardEntry option"
  isUTXOAddress :: "string \<Rightarrow> bool"
  zoneData :: "ShardEntry list"
    \<comment> \<open>the table \<open>ZoneData\<close>\<close>
  masterSecret :: bytes
    \<comment> \<open>the constant \<open>MasterSecret\<close>\<close>
  mnemonicSeed :: "string \<Rightarrow> error + bytes"
    \<comment> \<open>\<open>Mnemonic.fromPhrase(phrase).computeSeed()\<close>\<close>

section \<open>HD nodes (\<open>wallet/hdwallet.js\<close>)\<close>

text \<open>
  Modelled from the spec: \<open>HardenedBit\<close> (\<open>wallet/utils.js\<close>), the top bit of a 32-bit child
  index; an index with this bit set is a hardened child.
\<close>

definition HardenedBit :: nat where
  "HardenedBit = 0x80000000"

text \<open>\<open>index & HardenedBit\<close> is non-zero; \<open>index & ~HardenedBit\<close>.\<close>

definition hardened :: "nat \<Rightarrow> bool" where
  "hardened idx \<longleftrightarrow> (idx div HardenedBit) mod 2 = 1"

definition unhardened :: "nat \<Rightarrow> nat" where
  "unhardened idx = idx mod HardenedBit"

text \<open>
  The fields the two node classes share are the record \<open>HDNodeVoidWallet\<close>; \<open>HDNodeWallet\<close>
  extends it with the private key (of its \<open>SigningKey\<close>), the mnemonic (its phrase) and
  \<open>coinType\<close>, which is \<open>undefined\<close> until \<open>setCoinType\<close> is called. A \<open>null\<close> path is
  \<open>None\<close>. The provider plays no part in derivation and is left out.
\<close>

record HDNodeVoidWallet =
  address :: string
  publicKey :: bytes
  fingerprint :: bytes
  accountFingerprint :: bytes
  chainCode :: bytes
  path :: "string option"
  index :: nat
  depth :: nat

record HDNodeWallet = HDNodeVoidWallet +
  privateKey :: bytes
  mnemonic :: "string option"
  coinType :: "int option"

datatype HDNode = FullNode HDNodeWallet | VoidNode HDNodeVoidWallet

text \<open>
  The constructor of \<open>HDNodeWallet\<close>. \<open>BaseWallet\<close>'s constructor computes the address from
  the signing key's public key; then the compressed public key and the fingerprint
  \<open>dataSlice(ripemd160(sha256(publicKey)), 0, 4)\<close> are computed.
\<close>

definition new_HDNodeWallet ::
  "ext \<Rightarrow> bytes \<Rightarrow> bytes \<Rightarrow> bytes \<Rightarrow> string option \<Rightarrow> nat \<Rightarrow> nat \<Rightarrow> string option
     \<Rightarrow> error + HDNodeWallet" where
  "new_HDNodeWallet c signingKey accountFp chain pth idx dpth mn =
     (case signingKey_publicKey c signingKey of
        Inl e \<Rightarrow> Inl e
      | Inr pub \<Rightarrow>
     (case computeAddress c pub of
        Inl e \<Rightarrow> Inl e
      | Inr addr \<Rightarrow>
     (case signingKey_compressedPublicKey c signingKey of
        Inl e \<Rightarrow> Inl e
      | Inr cpub \<Rightarrow>
          Inr \<lparr>address = addr, publicKey = cpub,
               fingerprint = byteSlice (ripemd160 c (sha256 c cpub)) 0 4,
               accountFingerprint = accountFp, chainCode = chain, path = pth,
               index = idx, depth = dpth,
               privateKey = signingKey, mnemonic = mn, coinType = None\<rparr>)))"

text \<open>The constructor of \<open>HDNodeVoidWallet\<close>.\<close>

definition new_HDNodeVoidWallet ::
  "ext \<Rightarrow> string \<Rightarrow> bytes \<Rightarrow> bytes \<Rightarrow> bytes \<Rightarrow> string option \<Rightarrow> nat \<Rightarrow> nat
     \<Rightarrow> HDNodeVoidWallet" where
  "new_HDNodeVoidWallet c addr pub accountFp chain pth idx dpth =
     \<lparr>address = addr, publicKey = pub,
      fingerprint = byteSlice (ripemd160 c (sha256 c pub)) 0 4,
      accountFingerprint = accountFp, chainCode = chain, path = pth,
      index = idx, depth = dpth\<rparr>"

text \<open>
  Modelled from the spec: \<open>ser_I\<close> (\<open>wallet/utils.js\<close>). HMAC-SHA512 keyed by the chain code
  over the serialized parent public key, or \<open>0x00\<close> and the private key for a hardened
  index, followed by the big-endian 32-bit index; the left 32 bytes are \<open>IL\<close>, the rest
  is \<open>IR\<close>. A hardened index without a private key is an error. The result is
  \<open>(IR, IL)\<close>.
\<close>

definition ser32 :: "nat \<Rightarrow> bytes" where
  "ser32 idx = map (\<lambda>k. of_nat ((idx div 256 ^ k) mod 256)) [3, 2, 1, 0]"

definition ser_I :: "ext \<Rightarrow> nat \<Rightarrow> bytes \<Rightarrow> bytes \<Rightarrow> bytes option \<Rightarrow> error + (bytes \<times> bytes)" where
  "ser_I c idx chain pub priv =
     (if hardened idx then
        (case priv of
           None \<Rightarrow> Inl NeuteredHardened
         | Some k \<Rightarrow>
             (let I = computeHmac_sha512 c chain (0 # k @ ser32 idx)
              in Inr (drop 32 I, take 32 I)))
      else
        (let I = computeHmac_sha512 c chain (pub @ ser32 idx)
         in Inr (drop 32 I, take 32 I)))"

text \<open>
  The path of the child in \<open>HDNodeWallet.deriveChild\<close>, with the depth it gives: a path of
  six fields loses its last field, and the depth is then not incremented.
\<close>

definition childSuffix :: "nat \<Rightarrow> string" where
  "childSuffix idx =
     ''/'' @ string_of_nat (unhardened idx) @ (if hardened idx then [apostrophe] else [])"

definition HDNodeWallet_childPath :: "string option \<Rightarrow> nat \<Rightarrow> nat \<Rightarrow> string option \<times> nat" where
  "HDNodeWallet_childPath pth dpth idx =
     (let newDepth = dpth + 1 in
      case pth of
        None \<Rightarrow> (None, newDepth)
      | Some p \<Rightarrow>
          if p = [] then (Some p, newDepth)
          else
            (let pathFields = split_slash p in
             if length pathFields = 6
             then (Some (join_slash (butlast pathFields) @ childSuffix idx), newDepth - 1)
             else (Some (p @ childSuffix idx), newDepth)))"

text \<open>\<open>(toBigInt(IL) + BigInt(this.privateKey)) % N\<close>; the remainder by \<open>0n\<close> throws.\<close>

definition childKey :: "ext \<Rightarrow> bytes \<Rightarrow> bytes \<Rightarrow> error + bytes" where
  "childKey c IL priv =
     (if curveN c = 0 then Inl (External ''RangeError: Division by zero'')
      else toBeHex ((toBigInt IL + toBigInt priv) mod curveN c) 32)"

definition HDNodeWallet_deriveChild :: "ext \<Rightarrow> HDNodeWallet \<Rightarrow> nat \<Rightarrow> error + HDNodeWallet" where
  "HDNodeWallet_deriveChild c this idx =
     (if \<not> idx \<le> 0xffffffff then Inl InvalidIndex
      else
        (case HDNodeWallet_childPath (path this) (depth this) idx of
           (pth, newDepth) \<Rightarrow>
        (case ser_I c idx (chainCode this) (publicKey this) (Some (privateKey this)) of
           Inl e \<Rightarrow> Inl e
         | Inr (IR, IL) \<Rightarrow>
        (case childKey c IL (privateKey this) of
           Inl e \<Rightarrow> Inl e
         | Inr ki \<Rightarrow>
             (let newFingerprint =
                    (if depth this = 3 then fingerprint this else accountFingerprint this)
              in new_HDNodeWallet c ki newFingerprint IR pth idx newDepth (mnemonic this))))))"

definition HDNodeVoidWallet_deriveChild ::
  "ext \<Rightarrow> HDNodeVoidWallet \<Rightarrow> nat \<Rightarrow> error + HDNodeVoidWallet" where
  "HDNodeVoidWallet_deriveChild c this idx =
     (if \<not> idx \<le> 0xffffffff then Inl InvalidIndex
      else
        (let pth = (case path this of
                      None \<Rightarrow> None
                    | Some p \<Rightarrow> if p = [] then Some p else Some (p @ childSuffix idx))
         in
        (case ser_I c idx (chainCode this) (publicKey this) None of
           Inl e \<Rightarrow> Inl e
         | Inr (IR, IL) \<Rightarrow>
        (case addPoints c IL (publicKey this) of
           Inl e \<Rightarrow> Inl e
         | Inr Ki \<Rightarrow>
        (case computeAddress c Ki of
           Inl e \<Rightarrow> Inl e
         | Inr addr \<Rightarrow>
             Inr (new_HDNodeVoidWallet c addr Ki (fingerprint this) IR pth idx
                    (depth this + 1)))))))"

text \<open>\<open>neuter\<close>: a \<open>null\<close> path becomes the empty string.\<close>

definition neuter :: "ext \<Rightarrow> HDNodeWallet \<Rightarrow> HDNodeVoidWallet" where
  "neuter c this =
     new_HDNodeVoidWallet c (address this) (publicKey this) (accountFingerprint this)
       (chainCode this) (Some (case path this of None \<Rightarrow> [] | Some p \<Rightarrow> p))
       (index this) (depth this)"

section \<open>Base58Check and extended keys\<close>

text \<open>
  Modelled from the spec: \<open>encodeBase58\<close>, \<open>decodeBase58\<close> and \<open>encodeBase58Check\<close>
  (\<open>utils\<close>, \<open>wallet/utils.js\<close>; not among the sources). Base58 writes the value of the
  byte string in base 58 over the alphabet below, with one leading \<open>1\<close> for every leading
  zero byte; decoding reads a number and fails on a letter outside the alphabet;
  Base58Check appends the first four bytes of the double SHA-256 of the payload.
\<close>

definition Alphabet :: string where
  "Alphabet = ''123456789ABCDEFGHJKLMNPQRSTUVWXYZabcdefghijkmnopqrstuvwxyz''"

fun index_of :: "'a \<Rightarrow> 'a list \<Rightarrow> nat option" where
  "index_of x [] = None"
| "index_of x (y # ys) = (if x = y then Some 0 else map_option Suc (index_of x ys))"

definition getAlpha :: "char \<Rightarrow> error + nat" where
  "getAlpha letter =
     (case index_of letter Alphabet of None \<Rightarrow> Inl InvalidBase58 | Some v \<Rightarrow> Inr v)"

fun decodeBase58_loop :: "nat \<Rightarrow> string \<Rightarrow> error + nat" where
  "decodeBase58_loop result [] = Inr result"
| "decodeBase58_loop result (letter # rest) =
     (case getAlpha letter of
        Inl e \<Rightarrow> Inl e
      | Inr v \<Rightarrow> decodeBase58_loop (result * 58 + v) rest)"

definition decodeBase58 :: "string \<Rightarrow> error + nat" where
  "decodeBase58 v = decodeBase58_loop 0 v"

fun base58_digits :: "nat \<Rightarrow> string" where
  "base58_digits v =
     (if v = 0 then [] else base58_digits (v div 58) @ [Alphabet ! (v mod 58)])"

declare base58_digits.simps [simp del]

definition encodeBase58 :: "bytes \<Rightarrow> string" where
  "encodeBase58 bs =
     replicate (length (takeWhile (\<lambda>b. b = 0) bs)) (Alphabet ! 0) @ base58_digits (toBigInt bs)"

definition encodeBase58Check :: "ext \<Rightarrow> bytes \<Rightarrow> string" where
  "encodeBase58Check c data = encodeBase58 (data @ byteSlice (sha256 c (sha256 c data)) 0 4)"

text \<open>The version prefixes of the extended keys.\<close>

definition xprv_mainnet :: bytes where "xprv_mainnet = [0x04, 0x88, 0xAD, 0xE4]"
definition xpub_mainnet :: bytes where "xpub_mainnet = [0x04, 0x88, 0xB2, 0x1E]"
definition xpub_testnet :: bytes where "xpub_testnet = [0x04, 0x35, 0x87, 0xCF]"

text \<open>The getters \<open>extendedKey\<close> of the two classes.\<close>

definition HDNodeWallet_extendedKey :: "ext \<Rightarrow> HDNodeWallet \<Rightarrow> error + string" where
  "HDNodeWallet_extendedKey c this =
     (if \<not> depth this < 256 then Inl DepthTooDeep
      else
        (case zpad (depth this) 1 of
           Inl e \<Rightarrow> Inl e
         | Inr d \<Rightarrow>
        (case zpad (index this) 4 of
           Inl e \<Rightarrow> Inl e
         | Inr i \<Rightarrow>
             Inr (encodeBase58Check c
                    (xprv_mainnet @ d @ accountFingerprint this @ i @ chainCode this @
                     (0 # privateKey this))))))"

definition HDNodeVoidWallet_extendedKey :: "ext \<Rightarrow> HDNodeVoidWallet \<Rightarrow> error + string" where
  "HDNodeVoidWallet_extendedKey c this =
     (if \<not> depth this < 256 then Inl DepthTooDeep
      else
        (case zpad (depth this) 1 of
           Inl e \<Rightarrow> Inl e
         | Inr d \<Rightarrow>
        (case zpad (index this) 4 of
           Inl e \<Rightarrow> Inl e
         | Inr i \<Rightarrow>
             Inr (encodeBase58Check c
                    (xpub_mainnet @ d @ accountFingerprint this @ i @ chainCode this @
                     publicKey this)))))"

definition extendedKey :: "ext \<Rightarrow> HDNode \<Rightarrow> error + string" where
  "extendedKey c node =
     (case node of
        FullNode n \<Rightarrow> HDNodeWallet_extendedKey c n
      | VoidNode n \<Rightarrow> HDNodeVoidWallet_extendedKey c n)"

text \<open>
  \<open>fromExtendedKey\<close>. The assertion joins its two tests with \<open>||\<close>. The fourth \<open>case\<close>
  label, \<open>"0x04358394 "\<close>, ends in a space and equals no \<open>hexlify\<close> result, so only
  \<open>0x0488ade4\<close> selects the private branch; there a first key byte other than 0 (or a
  missing one) leaves the \<open>switch\<close> for the final \<open>invalid extended key prefix\<close>.
  The depth is \<open>bytes[4]\<close>; the guard on the length stands for the \<open>undefined\<close> that a
  shorter array would give (\<open>fromExtendedKey_accepts\<close> below shows that no accepted key
  is shorter).
\<close>

definition fromExtendedKey :: "ext \<Rightarrow> string \<Rightarrow> error + HDNode" where
  "fromExtendedKey c extKey =
     (case decodeBase58 extKey of
        Inl e \<Rightarrow> Inl e
      | Inr v \<Rightarrow>
     (let bs = toBeArray v in
      if \<not> (length bs = 82 \<or> encodeBase58Check c (byteSlice bs 0 78) = extKey)
      then Inl InvalidExtendedKey
      else if length bs < 5 then Inl InvalidExtendedKeyPrefix
      else
        (let dpth = unat (bs ! 4);
             accountFp = byteSlice bs 5 9;
             idx = toBigInt (byteSlice bs 9 13);
             chain = byteSlice bs 13 45;
             key = byteSlice bs 45 78;
             prefix = byteSlice bs 0 4
         in
         if prefix = xpub_mainnet \<or> prefix = xpub_testnet then
           (case computeAddress c key of
              Inl e \<Rightarrow> Inl e
            | Inr addr \<Rightarrow>
                Inr (VoidNode (new_HDNodeVoidWallet c addr key accountFp chain None idx dpth)))
         else if prefix = xprv_mainnet then
           (if key = [] \<or> hd key \<noteq> 0 then Inl InvalidExtendedKeyPrefix
            else
              (case new_HDNodeWallet c (byteSlice key 1 33) accountFp chain None idx dpth None of
                 Inl e \<Rightarrow> Inl e
               | Inr n \<Rightarrow> Inr (FullNode n)))
         else Inl InvalidExtendedKeyPrefix)))"

section \<open>Paths\<close>

definition is_digit :: "char \<Rightarrow> bool" where
  "is_digit ch \<longleftrightarrow> 48 \<le> (of_char ch :: nat) \<and> (of_char ch :: nat) \<le> 57"

definition digits :: "string \<Rightarrow> bool" where
  "digits s \<longleftrightarrow> s \<noteq> [] \<and> list_all is_digit s"

definition decimal :: "string \<Rightarrow> nat" where
  "decimal s = foldl (\<lambda>acc ch. acc * 10 + (of_char ch - 48)) 0 s"

text \<open>\<open>isValidPath\<close>: the regular expression \<open>/^m\/44'\/\d+'\/\d+'\/[01]$/\<close>.\<close>

definition isValidPath :: "string \<Rightarrow> bool" where
  "isValidPath p =
     (case split_slash p of
        [m, purpose, coin, account, change] \<Rightarrow>
          m = ''m'' \<and> purpose = ''44'' @ [apostrophe] \<and>
          coin \<noteq> [] \<and> last coin = apostrophe \<and> digits (butlast coin) \<and>
          account \<noteq> [] \<and> last account = apostrophe \<and> digits (butlast account) \<and>
          (change = ''0'' \<or> change = ''1'')
      | _ \<Rightarrow> False)"

text \<open>
  Modelled from the spec: \<open>derivePath\<close> (\<open>wallet/utils.js\<close>; not among the sources). It
  "parses a slash-separated path (optionally with trailing apostrophes denoting hardened
  segments), applies \<open>deriveChild\<close> iteratively from the node matching the path's root,
  and fails if the path is syntactically invalid or mixes an incompatible root segment":
  a leading \<open>m\<close> is the root segment and is dropped; a path without it cannot start at a
  node of depth 0; a segment \<open>n\<close> derives child \<open>n\<close>, a segment \<open>n'\<close> derives child
  \<open>HardenedBit + n\<close>; any other segment is an error. It serves both node classes, so the
  node's \<open>deriveChild\<close> and \<open>depth\<close> are arguments.
\<close>

fun derivePath_components :: "('n \<Rightarrow> nat \<Rightarrow> error + 'n) \<Rightarrow> 'n \<Rightarrow> string list \<Rightarrow> error + 'n" where
  "derivePath_components deriveChild node [] = Inr node"
| "derivePath_components deriveChild node (component # rest) =
     (if digits component then
        (case deriveChild node (decimal component) of
           Inl e \<Rightarrow> Inl e
         | Inr child \<Rightarrow> derivePath_components deriveChild child rest)
      else if component \<noteq> [] \<and> last component = apostrophe \<and> digits (butlast component) then
        (case deriveChild node (HardenedBit + decimal (butlast component)) of
           Inl e \<Rightarrow> Inl e
         | Inr child \<Rightarrow> derivePath_components deriveChild child rest)
      else Inl InvalidPath)"

definition derivePath ::
  "('n \<Rightarrow> nat \<Rightarrow> error + 'n) \<Rightarrow> ('n \<Rightarrow> nat) \<Rightarrow> 'n \<Rightarrow> string \<Rightarrow> error + 'n" where
  "derivePath deriveChild depthOf node p =
     (let components = split_slash p in
      if hd components = ''m'' then derivePath_components deriveChild node (tl components)
      else if depthOf node = 0 then Inl InvalidPath
      else derivePath_components deriveChild node components)"

definition HDNodeWallet_derivePath :: "ext \<Rightarrow> HDNodeWallet \<Rightarrow> string \<Rightarrow> error + HDNodeWallet" where
  "HDNodeWallet_derivePath c this p = derivePath (HDNodeWallet_deriveChild c) depth this p"

definition HDNodeVoidWallet_derivePath ::
  "ext \<Rightarrow> HDNodeVoidWallet \<Rightarrow> string \<Rightarrow> error + HDNodeVoidWallet" where
  "HDNodeVoidWallet_derivePath c this p = derivePath (HDNodeVoidWallet_deriveChild c) depth this p"

section \<open>Zone-aware address search (\<open>HDNodeWallet.deriveAddress\<close>)\<close>

text \<open>\<open>String.prototype.toLowerCase\<close> on the ASCII letters.\<close>

definition toLowerCase :: "string \<Rightarrow> string" where
  "toLowerCase s =
     map (\<lambda>ch. if 65 \<le> (of_char ch :: nat) \<and> (of_char ch :: nat) \<le> 90
                then char_of (of_char ch + (32 :: nat)) else ch) s"

text \<open>The test of the loop body: the address is in the shard and of the wallet's ledger.\<close>

definition zoneMatch :: "ext \<Rightarrow> ShardEntry \<Rightarrow> HDNodeWallet \<Rightarrow> bool" where
  "zoneMatch c shard newWallet \<longleftrightarrow>
     getShardForAddress c (address newWallet) = Some shard \<and>
     ((coinType newWallet = Some 969) = isUTXOAddress c (address newWallet))"

text \<open>
  The \<open>do ... while (zoneIndex > 0)\<close> loop, from the state \<open>(addrIndex, zoneIndex)\<close>. The
  source puts no bound on it, so it is a partial function: \<open>None\<close> is a loop that never
  ends, \<open>Some (Inl e)\<close> an exception thrown by \<open>derivePath\<close>.
\<close>

partial_function (option) deriveAddress_loop ::
  "ext \<Rightarrow> HDNodeWallet \<Rightarrow> ShardEntry \<Rightarrow> nat \<Rightarrow> int \<Rightarrow> (error + HDNodeWallet) option" where
  "deriveAddress_loop c this shard addrIndex zoneIndex =
     (case HDNodeWallet_derivePath c this (string_of_nat addrIndex) of
        Inl e \<Rightarrow> Some (Inl e)
      | Inr newWallet \<Rightarrow>
          (let zoneIndex' = (if zoneMatch c shard newWallet then zoneIndex - 1 else zoneIndex)
           in if zoneIndex' > 0
              then deriveAddress_loop c this shard (addrIndex + 1) zoneIndex'
              else Some (Inr newWallet)))"

text \<open>
  \<open>ShardData.find(...)\<close> for the lower-cased zone; and \<open>deriveAddress\<close>. An absent or
  empty zone is falsy. The index is the ordinal of the wanted match, a non-negative
  integer.
\<close>

definition requestedShard :: "ext \<Rightarrow> string \<Rightarrow> ShardEntry option" where
  "requestedShard c zone =
     (let z = toLowerCase zone in
      find (\<lambda>shard. toLowerCase (entry_name shard) = z \<or>
                    toLowerCase (entry_nickname shard) = z \<or>
                    toLowerCase (entry_byte shard) = z)
           (ShardData (zoneData c)))"

definition deriveAddress ::
  "ext \<Rightarrow> HDNodeWallet \<Rightarrow> nat \<Rightarrow> string option \<Rightarrow> (error + HDNodeWallet) option" where
  "deriveAddress c this idx zone =
     (case path this of
        None \<Rightarrow> Some (Inl MissingPath)
      | Some p \<Rightarrow>
          if p = [] then Some (Inl MissingPath)
          else
            (case (case zone of None \<Rightarrow> [] | Some z \<Rightarrow> z) of
               [] \<Rightarrow>
                 if coinType this = Some 994 \<or> coinType this = Some 969
                 then Some (Inl NoZoneProvided)
                 else Some (HDNodeWallet_derivePath c this (p @ ''/'' @ string_of_nat idx))
             | ch # rest \<Rightarrow>
                 (case requestedShard c (ch # rest) of
                    None \<Rightarrow> Some (Inl InvalidZone)
                  | Some shard \<Rightarrow> deriveAddress_loop c this shard 0 (int idx + 1))))"

text \<open>The address derived at \<open>addrIndex\<close> exists and passes the test of the loop.\<close>

definition matchAt :: "ext \<Rightarrow> HDNodeWallet \<Rightarrow> ShardEntry \<Rightarrow> nat \<Rightarrow> bool" where
  "matchAt c this shard addrIndex \<longleftrightarrow>
     (case HDNodeWallet_derivePath c this (string_of_nat addrIndex) of
        Inl e \<Rightarrow> False
      | Inr newWallet \<Rightarrow> zoneMatch c shard newWallet)"

section \<open>Roots and \<open>Wallet.fromPhrase\<close>\<close>

text \<open>The private factory \<open>#fromSeed\<close>.\<close>

definition fromSeed :: "ext \<Rightarrow> bytes \<Rightarrow> string option \<Rightarrow> error + HDNodeWallet" where
  "fromSeed c seed mn =
     (if \<not> (length seed \<ge> 16 \<and> length seed \<le> 64) then Inl InvalidSeed
      else
        (let I = computeHmac_sha512 c (masterSecret c) seed
         in new_HDNodeWallet c (byteSlice I 0 32) [0, 0, 0, 0] (drop 32 I) (Some ''m'') 0 0 mn))"

text \<open>
  \<open>HDNodeWallet.fromPhrase\<close> and \<open>HDNodeWallet.fromMnemonic\<close>. A mnemonic is represented
  by its phrase; \<open>mnemonicSeed\<close> is \<open>Mnemonic.fromPhrase(phrase).computeSeed()\<close>.
\<close>

definition HDNodeWallet_fromPhrase :: "ext \<Rightarrow> string \<Rightarrow> string \<Rightarrow> error + HDNodeWallet" where
  "HDNodeWallet_fromPhrase c phrase p =
     (if \<not> isValidPath p then Inl InvalidPath
      else
        (case mnemonicSeed c phrase of
           Inl e \<Rightarrow> Inl e
         | Inr seed \<Rightarrow>
        (case fromSeed c seed (Some phrase) of
           Inl e \<Rightarrow> Inl e
         | Inr node \<Rightarrow> HDNodeWallet_derivePath c node p)))"

text \<open>
  \<open>parseInt(string)\<close> without a radix: leading white space is skipped, a sign is read, a
  prefix \<open>0x\<close> or \<open>0X\<close> selects radix 16, and the longest run of digits is the value;
  \<open>None\<close> is \<open>NaN\<close>.
\<close>

definition isWhiteSpace :: "char \<Rightarrow> bool" where
  "isWhiteSpace ch \<longleftrightarrow> (of_char ch :: nat) \<in> {9, 10, 11, 12, 13, 32}"

definition digitValue :: "char \<Rightarrow> nat option" where
  "digitValue ch =
     (let n = (of_char ch :: nat) in
      if 48 \<le> n \<and> n \<le> 57 then Some (n - 48)
      else if 97 \<le> n \<and> n \<le> 122 then Some (n - 87)
      else if 65 \<le> n \<and> n \<le> 90 then Some (n - 55)
      else None)"

definition radixDigit :: "nat \<Rightarrow> char \<Rightarrow> bool" where
  "radixDigit R ch \<longleftrightarrow> (case digitValue ch of None \<Rightarrow> False | Some d \<Rightarrow> d < R)"

definition parseDigits :: "nat \<Rightarrow> string \<Rightarrow> int option" where
  "parseDigits R s =
     (let Z = takeWhile (radixDigit R) s in
      if Z = [] then None
      else Some (int (foldl (\<lambda>acc ch. acc * R + (case digitValue ch of None \<Rightarrow> 0 | Some d \<Rightarrow> d)) 0 Z)))"

definition parseUnsigned :: "string \<Rightarrow> int option" where
  "parseUnsigned s =
     (case s of
        z # x # rest \<Rightarrow>
          if z = CHR ''0'' \<and> (x = CHR ''x'' \<or> x = CHR ''X'') then parseDigits 16 rest
          else parseDigits 10 s
      | _ \<Rightarrow> parseDigits 10 s)"

definition parseInt :: "string \<Rightarrow> int option" where
  "parseInt str =
     (case dropWhile isWhiteSpace str of
        [] \<Rightarrow> None
      | ch # rest \<Rightarrow>
          if ch = CHR ''-'' then map_option uminus (parseUnsigned rest)
          else if ch = CHR ''+'' then parseUnsigned rest
          else parseUnsigned (ch # rest))"

text \<open>\<open>String.prototype.replace("'", "")\<close>: the first apostrophe is removed.\<close>

fun replace_first :: "char \<Rightarrow> string \<Rightarrow> string" where
  "replace_first x [] = []"
| "replace_first x (ch # rest) = (if ch = x then rest else ch # replace_first x rest)"

text \<open>
  \<open>Wallet.fromPhrase\<close>. It returns a wallet of one of two classes. The two static
  constructors it calls are arguments: in \<open>wallet.ts\<close> they are \<open>QuaiHDWallet.fromPhrase\<close>
  and \<open>QiHDWallet.fromPhrase\<close>, in its other version \<open>HDNodeWallet.fromPhrase\<close> (above) and
  \<open>UTXOHDWallet.fromPhrase\<close>. \<open>connect(provider)\<close> attaches the provider to the wallet
  returned and is left out.
\<close>

datatype ('q, 'u) HDWallet = QuaiHD 'q | QiHD 'u

definition coinTypeOf :: "string list \<Rightarrow> int option" where
  "coinTypeOf splitPath = parseInt (replace_first apostrophe (splitPath ! 2))"

definition Wallet_fromPhrase ::
  "(string \<Rightarrow> string \<Rightarrow> error + 'q) \<Rightarrow> (string \<Rightarrow> string \<Rightarrow> error + 'u) \<Rightarrow> string \<Rightarrow> string
     \<Rightarrow> error + ('q, 'u) HDWallet" where
  "Wallet_fromPhrase quaiFromPhrase qiFromPhrase phrase p =
     (let splitPath = split_slash p in
      if length splitPath < 3 then Inl IncompletePath
      else
        (let ct = coinTypeOf splitPath in
         if ct = Some 994 then
           (case quaiFromPhrase phrase p of Inl e \<Rightarrow> Inl e | Inr wallet \<Rightarrow> Inr (QuaiHD wallet))
         else if ct = Some 969 then
           (case qiFromPhrase phrase p of Inl e \<Rightarrow> Inl e | Inr wallet \<Rightarrow> Inr (QiHD wallet))
         else Inl (UnsupportedCoinType ct)))"

section \<open>The Quai HD wallet (\<open>wallet/quai-hdwallet.ts\<close>)\<close>

text \<open>
  \<open>NeuteredAddressInfo\<close>, the serialized wallet, and the wallet's state: its root node and
  the map \<open>_addresses\<close>, keyed by address. A JavaScript \<open>Map\<close> keeps insertion order, so it
  is an association list; \<open>Map_set\<close> replaces the value of a key that is present and
  appends a new key.
\<close>

record NeuteredAddressInfo =
  ai_pubKey :: bytes
  ai_address :: string
  ai_account :: nat
  ai_index :: nat
  ai_zone :: string

record SerializedQuaiHDWallet =
  s_version :: nat
  s_phrase :: string
  s_coinType :: nat
  s_addresses :: "NeuteredAddressInfo list"

record QuaiHDWallet =
  root :: HDNodeWallet
  addresses :: "(string \<times> NeuteredAddressInfo) list"

fun Map_set :: "'k \<Rightarrow> 'v \<Rightarrow> ('k \<times> 'v) list \<Rightarrow> ('k \<times> 'v) list" where
  "Map_set k v [] = [(k, v)]"
| "Map_set k v ((k', v') # rest) =
     (if k' = k then (k, v) # rest else (k', v') # Map_set k v rest)"

text \<open>
  The wallet file imports \<open>HDNodeWallet\<close> from \<open>hdnodewallet.js\<close>, \<open>Mnemonic\<close>, and the
  inherited \<open>validateSerializedWallet\<close> and \<open>parentPath\<close> of \<open>AbstractHDWallet\<close>; none of
  them is among the sources. They are parameters; \<open>HDNodeWallet_deriveChild\<close> above is one
  instance of \<open>node_deriveChild\<close>.
\<close>

record deps =
  node_deriveChild :: "HDNodeWallet \<Rightarrow> nat \<Rightarrow> error + HDNodeWallet"
  node_fromMnemonic :: "string \<Rightarrow> string \<Rightarrow> error + HDNodeWallet"
  Mnemonic_fromPhrase :: "string \<Rightarrow> error + string"
  validateSerializedWallet :: "SerializedQuaiHDWallet \<Rightarrow> error option"
  parentPath :: "nat \<Rightarrow> string"

text \<open>Modelled from the spec: \<open>HARDENED_OFFSET\<close>, the top bit of a 32-bit index.\<close>

definition HARDENED_OFFSET :: nat where
  "HARDENED_OFFSET = 2 ^ 31"

text \<open>
  The methods change \<open>_addresses\<close> in place and may throw afterwards, so each returns its
  outcome together with the wallet as it then is.
\<close>

definition createAndStoreAddressInfo ::
  "QuaiHDWallet \<Rightarrow> HDNodeWallet \<Rightarrow> nat \<Rightarrow> string \<Rightarrow> NeuteredAddressInfo \<times> QuaiHDWallet" where
  "createAndStoreAddressInfo w addressNode account zone =
     (let neuteredAddressInfo =
            \<lparr>ai_pubKey = publicKey addressNode, ai_address = address addressNode,
             ai_account = account, ai_index = index addressNode, ai_zone = zone\<rparr>
      in (neuteredAddressInfo,
          w\<lparr>addresses := Map_set (ai_address neuteredAddressInfo) neuteredAddressInfo (addresses w)\<rparr>))"

text \<open>\<open>this._root.deriveChild(account + HARDENED_OFFSET).deriveChild(changeIndex).deriveChild(addressIndex)\<close>\<close>

definition deriveAddressNode :: "deps \<Rightarrow> HDNodeWallet \<Rightarrow> nat \<Rightarrow> nat \<Rightarrow> error + HDNodeWallet" where
  "deriveAddressNode d r account addressIndex =
     (case node_deriveChild d r (account + HARDENED_OFFSET) of
        Inl e \<Rightarrow> Inl e
      | Inr accountNode \<Rightarrow>
     (case node_deriveChild d accountNode 0 of
        Inl e \<Rightarrow> Inl e
      | Inr changeNode \<Rightarrow> node_deriveChild d changeNode addressIndex))"

text \<open>\<open>_addAddress\<close> (the public \<open>addAddress\<close> only calls it).\<close>

definition addAddress ::
  "ext \<Rightarrow> deps \<Rightarrow> QuaiHDWallet \<Rightarrow> nat \<Rightarrow> nat \<Rightarrow> (error + NeuteredAddressInfo) \<times> QuaiHDWallet" where
  "addAddress c d w account addressIndex =
     (if list_ex (\<lambda>(k, addressInfo). ai_index addressInfo = addressIndex) (addresses w)
      then (Inl (AddressExists addressIndex), w)
      else
        (case deriveAddressNode d (root w) account addressIndex of
           Inl e \<Rightarrow> (Inl e, w)
         | Inr addressNode \<Rightarrow>
        (case getZoneForAddress c (address addressNode) of
           None \<Rightarrow> (Inl (NoZoneForIndex addressIndex), w)
         | Some zone \<Rightarrow>
             if zone = [] then (Inl (NoZoneForIndex addressIndex), w)
             else if \<not> isQuaiAddress c (address addressNode)
             then (Inl (NotQuaiAddress (address addressNode)), w)
             else (case createAndStoreAddressInfo w addressNode account zone of
                     (info, w') \<Rightarrow> (Inr info, w')))))"

fun importSerializedAddresses ::
  "ext \<Rightarrow> deps \<Rightarrow> QuaiHDWallet \<Rightarrow> NeuteredAddressInfo list \<Rightarrow> (error + unit) \<times> QuaiHDWallet" where
  "importSerializedAddresses c d w [] = (Inr (), w)"
| "importSerializedAddresses c d w (addressInfo # rest) =
     (case addAddress c d w (ai_account addressInfo) (ai_index addressInfo) of
        (Inl e, w') \<Rightarrow> (Inl e, w')
      | (Inr newAddressInfo, w') \<Rightarrow>
          if ai_address addressInfo \<noteq> ai_address newAddressInfo
          then (Inl (AddressMismatch (ai_address addressInfo) (ai_address newAddressInfo)), w')
          else if ai_pubKey addressInfo \<noteq> ai_pubKey newAddressInfo
          then (Inl PublicKeyMismatch, w')
          else if ai_zone addressInfo \<noteq> ai_zone newAddressInfo
          then (Inl ZoneMismatch, w')
          else importSerializedAddresses c d w' rest)"

text \<open>
  \<open>deserialize\<close>: the promise resolves to a wallet (\<open>Inr\<close>) or rejects (\<open>Inl\<close>).
  \<open>deserialize_root\<close> is its first part: validation, and the root node built from the
  serialized phrase and the path of the coin type.
\<close>

definition deserialize_root :: "deps \<Rightarrow> SerializedQuaiHDWallet \<Rightarrow> error + HDNodeWallet" where
  "deserialize_root d serialized =
     (case validateSerializedWallet d serialized of
        Some e \<Rightarrow> Inl e
      | None \<Rightarrow>
     (case Mnemonic_fromPhrase d (s_phrase serialized) of
        Inl e \<Rightarrow> Inl e
      | Inr mn \<Rightarrow> node_fromMnemonic d mn (parentPath d (s_coinType serialized))))"

definition deserialize :: "ext \<Rightarrow> deps \<Rightarrow> SerializedQuaiHDWallet \<Rightarrow> error + QuaiHDWallet" where
  "deserialize c d serialized =
     (case deserialize_root d serialized of
        Inl e \<Rightarrow> Inl e
      | Inr r \<Rightarrow>
     (case importSerializedAddresses c d \<lparr>root = r, addresses = []\<rparr> (s_addresses serialized) of
        (Inl e, wallet) \<Rightarrow> Inl e
      | (Inr u, wallet) \<Rightarrow> Inr wallet))"

text \<open>
  A stored entry matches its re-derivation from the root: the node derived for its account
  and index has its address and public key, and the zone of that address is its zone.
\<close>

definition rederived :: "ext \<Rightarrow> deps \<Rightarrow> HDNodeWallet \<Rightarrow> NeuteredAddressInfo \<Rightarrow> bool" where
  "rederived c d r addressInfo \<longleftrightarrow>
     (case deriveAddressNode d r (ai_account addressInfo) (ai_index addressInfo) of
        Inl e \<Rightarrow> False
      | Inr addressNode \<Rightarrow>
          ai_address addressInfo = address addressNode \<and>
          ai_pubKey addressInfo = publicKey addressNode \<and>
          getZoneForAddress c (address addressNode) = Some (ai_zone addressInfo))"

text \<open>The three errors of \<open>importSerializedAddresses\<close> itself.\<close>

definition mismatchError :: "error \<Rightarrow> bool" where
  "mismatchError e \<longleftrightarrow>
     (case e of
        AddressMismatch stored derived \<Rightarrow> True
      | PublicKeyMismatch \<Rightarrow> True
      | ZoneMismatch \<Rightarrow> True
      | _ \<Rightarrow> False)"

section \<open>Example collaborators\<close>

text \<open>
  An instance of the collaborators for the examples. The curve is replaced by the additive
  group of the integers modulo \<open>exampleN\<close> with generator 1: the public key of \<open>k\<close> is the
  residue of \<open>k\<close>, serialized in 32 bytes after a prefix byte, and adding points adds
  residues. The hash functions are replaced by padding and truncation, an address is the hex
  string of the last 20 bytes of a 33-byte key, and every address lies in the zone
  \<open>0x00\<close> of the account-based ledger. The HMAC puts the last byte of its data in \<open>IL\<close> and
  the key in \<open>IR\<close>, so the key of child \<open>i\<close> is the parent's key plus \<open>i mod 256\<close>.
\<close>

definition exampleN :: nat where
  "exampleN = 65521"

definition be32 :: "nat \<Rightarrow> bytes" where
  "be32 v = replicate (32 - length (toBeArray v)) 0 @ toBeArray v"

definition hexlify :: "bytes \<Rightarrow> string" where
  "hexlify bs =
     concat (map (\<lambda>b. [''0123456789abcdef'' ! (unat b div 16), ''0123456789abcdef'' ! (unat b mod 16)]) bs)"

definition exampleExt :: ext where
  "exampleExt =
     \<lparr>computeHmac_sha512 = (\<lambda>key data. replicate 31 0 @ [last data] @ take 32 (key @ replicate 32 1)),
      sha256 = (\<lambda>data. take 32 (rev data @ replicate 32 2)),
      ripemd160 = (\<lambda>data. take 20 (rev data @ replicate 20 3)),
      signingKey_publicKey = (\<lambda>k. Inr (4 # be32 (toBigInt k mod exampleN) @ replicate 32 0)),
      signingKey_compressedPublicKey = (\<lambda>k. Inr (2 # be32 (toBigInt k mod exampleN))),
      addPoints = (\<lambda>a p. Inr (2 # be32 ((toBigInt a + toBigInt (byteSlice p 1 33)) mod exampleN))),
      computeAddress = (\<lambda>p. Inr (''0x'' @ hexlify (byteSlice p 13 33))),
      curveN = exampleN,
      getZoneForAddress = (\<lambda>a. Some ''0x00''),
      isQuaiAddress = (\<lambda>a. True),
      getShardForAddress = (\<lambda>a. Some (hd exampleZoneData)),
      isUTXOAddress = (\<lambda>a. False),
      zoneData = exampleZoneData,
      masterSecret = map (of_nat \<circ> of_char) ''Bitcoin seed'',
      mnemonicSeed = (\<lambda>phrase. Inr (take 64 (map (of_nat \<circ> of_char) phrase @ replicate 64 0)))\<rparr>"

text \<open>A full node at the address level: its path has six fields.\<close>

definition examplePath :: string where
  "examplePath = ''m/44'/994'/0'/0/0''"

definition exampleNode :: HDNodeWallet where
  "exampleNode =
     \<lparr>address = ''0x0000000000000000000000000000000000000007'',
      publicKey = 2 # be32 7,
      fingerprint = [7, 0, 0, 0],
      accountFingerprint = [0, 0, 0, 0],
      chainCode = replicate 32 5,
      path = Some examplePath,
      index = 0,
      depth = 5,
      privateKey = be32 7,
      mnemonic = None,
      coinType = None\<rparr>"

definition exampleDeps :: deps where
  "exampleDeps =
     \<lparr>node_deriveChild = HDNodeWallet_deriveChild exampleExt,
      node_fromMnemonic = (\<lambda>mn p. Inr (exampleNode\<lparr>path := Some p, depth := 2\<rparr>)),
      Mnemonic_fromPhrase = Inr,
      validateSerializedWallet = (\<lambda>s. None),
      parentPath = (\<lambda>ct. ''m/44'/'' @ string_of_nat ct @ [apostrophe])\<rparr>"

text \<open>
  A wallet root at \<open>m/44'/994'\<close> with the private key 7, and the entry of its address 5 of
  account 0: with the example collaborators the key of that address is \<open>7 + 0 + 0 + 5\<close>.
\<close>

definition exampleRoot :: HDNodeWallet where
  "exampleRoot = exampleNode\<lparr>path := Some (''m/44'/994'' @ [apostrophe]), depth := 2\<rparr>"

definition exampleEntry :: NeuteredAddressInfo where
  "exampleEntry =
     \<lparr>ai_pubKey = 2 # be32 12,
      ai_address = ''0x000000000000000000000000000000000000000c'',
      ai_account = 0, ai_index = 5, ai_zone = ''0x00''\<rparr>"

text \<open>A wallet that holds this one address.\<close>

definition exampleWallet :: QuaiHDWallet where
  "exampleWallet =
     \<lparr>root = exampleRoot,
      addresses = [(''0x000000000000000000000000000000000000000c'', exampleEntry)]\<rparr>"

text \<open>
  Two serialized wallets: the first holds the entry above; the second holds it twice, the
  second time with another address.
\<close>

definition examplePhrase :: string where
  "examplePhrase = ''test test test test test test test test test test test junk''"

definition exampleSerialized :: SerializedQuaiHDWallet where
  "exampleSerialized =
     \<lparr>s_version = 1, s_phrase = examplePhrase, s_coinType = 994, s_addresses = [exampleEntry]\<rparr>"

definition tamperedSerialized :: SerializedQuaiHDWallet where
  "tamperedSerialized =
     \<lparr>s_version = 1, s_phrase = examplePhrase, s_coinType = 994,
      s_addresses =
        [exampleEntry,
         exampleEntry\<lparr>ai_address := ''0x00000000000000000000000000000000000000ff''\<rparr>]\<rparr>"

text \<open>A serialized wallet whose one entry has another address than its re-derivation.\<close>

definition mismatchSerialized :: SerializedQuaiHDWallet where
  "mismatchSerialized =
     \<lparr>s_version = 1, s_phrase = examplePhrase, s_coinType = 994,
      s_addresses = [exampleEntry\<lparr>ai_address := ''0x00000000000000000000000000000000000000ff''\<rparr>]\<rparr>"

text \<open>A path segment that \<open>derivePath\<close> accepts and whose index \<open>deriveChild\<close> accepts.\<close>

definition okComponent :: "string \<Rightarrow> bool" where
  "okComponent seg \<longleftrightarrow>
     (digits seg \<and> decimal seg \<le> 0xffffffff) \<or>
     (\<not> digits seg \<and> seg \<noteq> [] \<and> last seg = apostrophe \<and> digits (butlast seg) \<and>
      HardenedBit + decimal (butlast seg) \<le> 0xffffffff)"

text \<open>
  \<open>quaiHDAccountPath\<close> and \<open>qiHDAccountPath\<close> of \<open>hdwallet.js\<close>, and the path of the comment
  on \<open>Wallet.fromPhrase\<close>.
\<close>

definition quaiHDAccountPath :: "nat \<Rightarrow> string" where
  "quaiHDAccountPath account = ''m/44'/994'/'' @ string_of_nat account @ [apostrophe] @ ''/0''"

definition qiHDAccountPath :: "nat \<Rightarrow> bool \<Rightarrow> string" where
  "qiHDAccountPath account change =
     ''m/44'/969'/'' @ string_of_nat account @ [apostrophe] @ ''/'' @ (if change then ''1'' else ''0'')"

definition ethereumPath :: string where
  "ethereumPath = ''m/44'/60'/0'/0/0''"

section \<open>Contracts of the collaborators\<close>

text \<open>
  What the derivation code relies on from the curve library. First, \<open>computeAddress\<close> gives
  the same address for the uncompressed and the compressed public key of one private key.
  Second, the curve is a group in which the public key of \<open>(a + k) mod N\<close> is the sum of the
  points of \<open>a\<close> and \<open>k\<close>: whenever \<open>addPoints(a, P)\<close> returns for the public key \<open>P\<close> of
  \<open>k\<close>, it returns the public key of the child key.
\<close>

definition curve_contract :: "ext \<Rightarrow> bool" where
  "curve_contract c \<longleftrightarrow>
     (\<forall>k U P. signingKey_publicKey c k = Inr U \<longrightarrow> signingKey_compressedPublicKey c k = Inr P
        \<longrightarrow> computeAddress c U = computeAddress c P) \<and>
     (\<forall>a k P Q ki. signingKey_compressedPublicKey c k = Inr P \<longrightarrow> addPoints c a P = Inr Q
        \<longrightarrow> childKey c a k = Inr ki \<longrightarrow> signingKey_compressedPublicKey c ki = Inr Q)"

text \<open>
  What the constructor of \<open>HDNodeWallet\<close> establishes: the address and the public key of
  the node are those of its private key.
\<close>

definition constructed :: "ext \<Rightarrow> HDNodeWallet \<Rightarrow> bool" where
  "constructed c n \<longleftrightarrow>
     (case signingKey_publicKey c (privateKey n) of
        Inl e \<Rightarrow> False
      | Inr U \<Rightarrow> computeAddress c U = Inr (address n)) \<and>
     signingKey_compressedPublicKey c (privateKey n) = Inr (publicKey n)"

text \<open>The path is set and has exactly six fields.\<close>

definition sixFields :: "string option \<Rightarrow> bool" where
  "sixFields pth \<longleftrightarrow> (case pth of None \<Rightarrow> False | Some p \<Rightarrow> p \<noteq> [] \<and> length (split_slash p) = 6)"

section \<open>Well-formed nodes and example keys\<close>

text \<open>
  SHA-256 returns 32 bytes; and the sizes of what all the hash and key functions return.
\<close>

definition sha256_size :: "ext \<Rightarrow> bool" where
  "sha256_size c \<longleftrightarrow> (\<forall>data. length (sha256 c data) = 32)"

definition sizes_contract :: "ext \<Rightarrow> bool" where
  "sizes_contract c \<longleftrightarrow>
     sha256_size c \<and>
     (\<forall>key data. length (computeHmac_sha512 c key data) = 64) \<and>
     (\<forall>data. length (ripemd160 c data) = 20) \<and>
     (\<forall>k P. signingKey_compressedPublicKey c k = Inr P \<longrightarrow> length P = 33) \<and>
     (\<forall>a P Q. addPoints c a P = Inr Q \<longrightarrow> length Q = 33)"

text \<open>
  What the constructors and factory functions establish for every node they return: the
  two fingerprints have 4 bytes, the chain code 32, the private key 32 and the compressed
  public key 33, the index fits 32 bits, and the address is the address of the key.
\<close>

definition wellFormed :: "ext \<Rightarrow> HDNode \<Rightarrow> bool" where
  "wellFormed c node \<longleftrightarrow>
     (case node of
        FullNode n \<Rightarrow>
          length (accountFingerprint n) = 4 \<and> length (fingerprint n) = 4 \<and>
          length (chainCode n) = 32 \<and> length (privateKey n) = 32 \<and>
          index n \<le> 0xffffffff \<and> constructed c n
      | VoidNode n \<Rightarrow>
          length (accountFingerprint n) = 4 \<and> length (fingerprint n) = 4 \<and>
          length (chainCode n) = 32 \<and> length (publicKey n) = 33 \<and>
          index n \<le> 0xffffffff \<and> computeAddress c (publicKey n) = Inr (address n))"

text \<open>The fields that both kinds of node have.\<close>

definition nodeAddress :: "HDNode \<Rightarrow> string" where
  "nodeAddress node = (case node of FullNode n \<Rightarrow> address n | VoidNode n \<Rightarrow> address n)"

definition nodeChainCode :: "HDNode \<Rightarrow> bytes" where
  "nodeChainCode node = (case node of FullNode n \<Rightarrow> chainCode n | VoidNode n \<Rightarrow> chainCode n)"

definition nodeDepth :: "HDNode \<Rightarrow> nat" where
  "nodeDepth node = (case node of FullNode n \<Rightarrow> depth n | VoidNode n \<Rightarrow> depth n)"

definition nodeIndex :: "HDNode \<Rightarrow> nat" where
  "nodeIndex node = (case node of FullNode n \<Rightarrow> index n | VoidNode n \<Rightarrow> index n)"

definition isFull :: "HDNode \<Rightarrow> bool" where
  "isFull node = (case node of FullNode n \<Rightarrow> True | VoidNode n \<Rightarrow> False)"

text \<open>
  The extended public key of the master node of the first test vector of BIP-32, the same
  string with its last letter changed, and the 78 bytes before the checksum that both
  decode to (the checksum bytes are \<open>ab473b21\<close> and \<open>ab473b22\<close>).
\<close>

definition exampleXpub :: string where
  "exampleXpub = ''xpub661MyMwAqRbcFtXgS5sYJABqqG9YLmC4Q1Rdap9gSE8NqtwybGhePY2gZ29ESFjqJoCu1Rupje8YtGqsefD265TMg7usUDFdp6W1EGMcet8''"

definition tamperedXpub :: string where
  "tamperedXpub = ''xpub661MyMwAqRbcFtXgS5sYJABqqG9YLmC4Q1Rdap9gSE8NqtwybGhePY2gZ29ESFjqJoCu1Rupje8YtGqsefD265TMg7usUDFdp6W1EGMcet9''"

definition exampleXpubPayload :: bytes where
  "exampleXpubPayload =
     [4, 136, 178, 30, 0, 0, 0, 0, 0, 0, 0, 0, 0, 135, 61, 255, 129, 192, 47, 82, 86, 35, 253,
      31, 229, 22, 126, 172, 58, 85, 160, 73, 222, 61, 49, 75, 180, 46, 226, 39, 255, 237, 55,
      213, 8, 3, 57, 163, 96, 19, 48, 21, 151, 218, 239, 65, 251, 229, 147, 160, 44, 197, 19,
      208, 181, 85, 39, 236, 45, 241, 5, 14, 46, 143, 244, 156, 133, 194]"

text \<open>What \<open>fromExtendedKey\<close> builds from these 78 bytes.\<close>

definition exampleXpubNode :: "ext \<Rightarrow> error + HDNode" where
  "exampleXpubNode c =
     (case computeAddress c (byteSlice exampleXpubPayload 45 78) of
        Inl e \<Rightarrow> Inl e
      | Inr addr \<Rightarrow>
          Inr (VoidNode (new_HDNodeVoidWallet c addr (byteSlice exampleXpubPayload 45 78) [0, 0, 0, 0]
                 (byteSlice exampleXpubPayload 13 45) None 0 0)))"

section \<open>Shard lookup: results\<close>

lemma shardFromBytes_Inr:
  "shardFromBytes b = Inr sh \<Longrightarrow> sh \<in> zoneShards \<and> b = Shard_value sh"
  by (auto simp: shardFromBytes_def zoneShards_def split: if_splits)

lemma shardFromBytes_region:
  "shardFromBytes ''0x0'' = Inl InvalidShard" "shardFromBytes ''0x1'' = Inl InvalidShard"
  "shardFromBytes ''0x2'' = Inl InvalidShard" "shardFromBytes ''0x'' = Inl InvalidShard"
  "shardFromBytes '''' = Inl InvalidShard"
  by (simp_all add: shardFromBytes_def)

lemma find_append_case:
  "find P (xs @ ys) = (case find P xs of None \<Rightarrow> find P ys | Some x \<Rightarrow> Some x)"
  by (induction xs) simp_all

lemma find_ShardData_tail:
  assumes "find (shardMatches s) (ShardData zd) = Some it" and "\<forall>z \<in> set zd. \<not> shardMatches s z"
  shows "entry_byte it \<in> {''0x0'', ''0x1'', ''0x2'', ''0x''}"
proof -
  from assms(2) have "find (shardMatches s) zd = None"
    by (simp add: find_None_iff)
  with assms(1) show ?thesis
    by (auto simp: ShardData_def find_append_case split: if_splits)
qed

text \<open>
  C10. \<open>toShard\<close> returns a \<open>Shard\<close> only when the first entry of \<open>ShardData\<close> that matches
  the identifier (by name, byte, nickname or shard string) is an entry of \<open>ZoneData\<close> whose
  byte is that of one of the nine zone-level shards, and the result is that shard. For every
  identifier that matches no entry of \<open>ZoneData\<close> (the identifiers of the regions Cyprus,
  Paxos and Hydra, those of Prime, and every unknown string) it fails with
  \<open>Invalid shard\<close>, although \<open>ShardData\<close> has entries for the regions and for Prime.
\<close>

theorem toShard_zone_level_only:
  "(toShard zd s = Inr sh \<longrightarrow>
      sh \<in> zoneShards \<and>
      (\<exists>it \<in> set zd. shardMatches s it \<and> entry_byte it = Shard_value sh)) \<and>
   ((\<forall>z \<in> set zd. \<not> shardMatches s z) \<longrightarrow> toShard zd s = Inl InvalidShard) \<and>
   (\<forall>r \<in> {''Cyprus'', ''Paxos'', ''Hydra'', ''Prime''}.
      \<exists>it \<in> set (ShardData zd). entry_name it = r)"
proof (intro conjI impI)
  assume ok: "toShard zd s = Inr sh"
  show "sh \<in> zoneShards"
    using ok shardFromBytes_Inr unfolding toShard_def by blast
  show "\<exists>it \<in> set zd. shardMatches s it \<and> entry_byte it = Shard_value sh"
  proof (cases "find (shardMatches s) (ShardData zd)")
    case None
    with ok show ?thesis
      by (simp add: toShard_def shardFromBytes_region)
  next
    case (Some it)
    with ok have b: "shardFromBytes (entry_byte it) = Inr sh"
      by (simp add: toShard_def)
    then have v: "entry_byte it = Shard_value sh"
      using shardFromBytes_Inr by blast
    show ?thesis
    proof (cases "find (shardMatches s) zd")
      case None
      then have "\<forall>z \<in> set zd. \<not> shardMatches s z"
        by (simp add: find_None_iff)
      from find_ShardData_tail [OF Some this] b show ?thesis
        by (auto simp: shardFromBytes_region)
    next
      case (Some z)
      then have "find (shardMatches s) (ShardData zd) = Some z"
        by (simp add: ShardData_def find_append_case)
      with \<open>find (shardMatches s) (ShardData zd) = Some it\<close> have "z = it" by simp
      moreover from Some have "z \<in> set zd \<and> shardMatches s z"
        by (metis find_Some_iff nth_mem)
      ultimately show ?thesis using v by blast
    qed
  qed
next
  assume none: "\<forall>z \<in> set zd. \<not> shardMatches s z"
  show "toShard zd s = Inl InvalidShard"
  proof (cases "find (shardMatches s) (ShardData zd)")
    case None
    then show ?thesis by (simp add: toShard_def shardFromBytes_region)
  next
    case (Some it)
    from find_ShardData_tail [OF Some none] Some show ?thesis
      by (auto simp: toShard_def shardFromBytes_region)
  qed
next
  show "\<forall>r \<in> {''Cyprus'', ''Paxos'', ''Hydra'', ''Prime''}.
      \<exists>it \<in> set (ShardData zd). entry_name it = r"
    by (simp add: ShardData_def)
qed

theorem toShard_zone_level_only_witness:
  "toShard exampleZoneData ''paxos1'' = Inr Paxos1 \<and>
   Paxos1 \<in> zoneShards \<and>
   (\<exists>it \<in> set exampleZoneData. shardMatches ''paxos1'' it \<and> entry_byte it = Shard_value Paxos1) \<and>
   find (shardMatches ''Cyprus'') exampleZoneData = None \<and>
   toShard exampleZoneData ''Cyprus'' = Inl InvalidShard \<and>
   find (shardMatches ''0x'') exampleZoneData = None \<and>
   toShard exampleZoneData ''0x'' = Inl InvalidShard"
proof -
  have ok: "toShard exampleZoneData ''paxos1'' = Inr Paxos1"
    by (simp add: toShard_def ShardData_def exampleZoneData_def shardMatches_def shardFromBytes_def)
  have n1: "find (shardMatches ''Cyprus'') exampleZoneData = None"
    by (simp add: exampleZoneData_def shardMatches_def)
  have n2: "find (shardMatches ''0x'') exampleZoneData = None"
    by (simp add: exampleZoneData_def shardMatches_def)
  from toShard_zone_level_only [of exampleZoneData "''paxos1''" Paxos1] ok
  have "Paxos1 \<in> zoneShards \<and>
     (\<exists>it \<in> set exampleZoneData. shardMatches ''paxos1'' it \<and> entry_byte it = Shard_value Paxos1)"
    by blast
  moreover from toShard_zone_level_only [of exampleZoneData "''Cyprus''" Paxos1] n1
  have "toShard exampleZoneData ''Cyprus'' = Inl InvalidShard"
    by (simp add: find_None_iff)
  moreover from toShard_zone_level_only [of exampleZoneData "''0x''" Paxos1] n2
  have "toShard exampleZoneData ''0x'' = Inl InvalidShard"
    by (simp add: find_None_iff)
  ultimately show ?thesis using ok n1 n2 by blast
qed

section \<open>Shard readiness: results\<close>

lemma waitShardReady_loop_never:
  assumes "\<forall>k. count \<le> k \<and> k \<le> 8 \<longrightarrow> \<not> shardReady (readyMaps k) shard" and "count \<le> 8"
  shows "waitShardReady_loop readyMaps shard count =
           (Inl ShardTimeout, map (\<lambda>k. 2 ^ k) [count ..< 9])"
  using assms
proof (induction "8 - count" arbitrary: count)
  case 0
  then have "count = 8" by simp
  with 0 show ?case by simp
next
  case (Suc n)
  then have lt: "count \<le> 7" and n: "n = 8 - (count + 1)" and le: "count + 1 \<le> 8"
    by simp_all
  from Suc.prems(1) have
    nr: "\<forall>k. count + 1 \<le> k \<and> k \<le> 8 \<longrightarrow> \<not> shardReady (readyMaps k) shard"
    by simp
  from Suc.prems(1) lt have here: "\<not> shardReady (readyMaps count) shard"
    by simp
  from Suc.hyps(1) [OF n nr le]
  have "waitShardReady_loop readyMaps shard (count + 1) =
          (Inl ShardTimeout, map (\<lambda>k. 2 ^ k) [count + 1 ..< 9])" .
  moreover have "[count ..< 9] = count # [count + 1 ..< 9]"
    using lt by (simp add: upt_conv_Cons)
  ultimately show ?case
    using here lt by (subst waitShardReady_loop.simps) simp
qed

lemma waitShardReady_loop_first_ready:
  assumes "shardReady (readyMaps k) shard"
    and "\<forall>j. count \<le> j \<and> j < k \<longrightarrow> \<not> shardReady (readyMaps j) shard"
    and "count \<le> k" and "k \<le> 8"
  shows "waitShardReady_loop readyMaps shard count = (Inr (), map (\<lambda>j. 2 ^ j) [count ..< k])"
  using assms(2,3)
proof (induction "k - count" arbitrary: count)
  case 0
  then have "count = k" by simp
  with assms(1) show ?case by simp
next
  case (Suc n)
  then have lt: "count < k" and n: "n = k - (count + 1)" and le: "count + 1 \<le> k"
    by simp_all
  from Suc.prems(1) have
    nr: "\<forall>j. count + 1 \<le> j \<and> j < k \<longrightarrow> \<not> shardReady (readyMaps j) shard"
    by simp
  from Suc.prems(1) lt have here: "\<not> shardReady (readyMaps count) shard"
    by simp
  from lt assms(4) have c7: "count \<le> 7" by simp
  from Suc.hyps(1) [OF n nr le]
  have "waitShardReady_loop readyMaps shard (count + 1) =
          (Inr (), map (\<lambda>j. 2 ^ j) [count + 1 ..< k])" .
  moreover have "[count ..< k] = count # [count + 1 ..< k]"
    using lt by (simp add: upt_conv_Cons)
  ultimately show ?case
    using here c7 by (subst waitShardReady_loop.simps) simp
qed

text \<open>
  C8. For every shard, \<open>waitShardReady\<close> tests the ready flag before each sleep, at most
  nine times. When the flag is set at none of these tests (in particular when it is never
  set), it sleeps nine times with the doubling delays 1, 2, 4, ..., 256 ms (eight
  doublings) and then fails with the timeout error. When the flag is set during the wait,
  so that the test \<open>k\<close> (\<open>k \<le> 8\<close>) is the first to see it, it returns without error after
  exactly the \<open>k\<close> sleeps of 1, 2, ..., \<open>2 ^ (k - 1)\<close> ms; when the flag is set at the first
  test it returns at once without sleeping. (The loop is a total function: it returns for
  every sequence of ready maps.)
\<close>

theorem waitShardReady_backoff:
  "((\<forall>k\<le>8. \<not> shardReady (readyMaps k) shard) \<longrightarrow>
      waitShardReady readyMaps shard = (Inl ShardTimeout, [1, 2, 4, 8, 16, 32, 64, 128, 256])) \<and>
   (k \<le> 8 \<and> shardReady (readyMaps k) shard \<and> (\<forall>j<k. \<not> shardReady (readyMaps j) shard) \<longrightarrow>
      waitShardReady readyMaps shard = (Inr (), map (\<lambda>j. 2 ^ j) [0 ..< k])) \<and>
   (shardReady (readyMaps 0) shard \<longrightarrow> waitShardReady readyMaps shard = (Inr (), []))"
proof (intro conjI impI)
  assume never: "\<forall>k\<le>8. \<not> shardReady (readyMaps k) shard"
  have "[0 ..< 9] = [0, 1, 2, 3, 4, 5, 6, 7, 8 :: nat]"
    by (simp add: upt_conv_Cons)
  moreover from never have "\<forall>k. 0 \<le> k \<and> k \<le> 8 \<longrightarrow> \<not> shardReady (readyMaps k) shard"
    by simp
  from waitShardReady_loop_never [OF this]
  have "waitShardReady_loop readyMaps shard 0 = (Inl ShardTimeout, map (\<lambda>k. 2 ^ k) [0 ..< 9])"
    by simp
  ultimately
  show "waitShardReady readyMaps shard = (Inl ShardTimeout, [1, 2, 4, 8, 16, 32, 64, 128, 256])"
    by (simp add: waitShardReady_def)
next
  assume a: "k \<le> 8 \<and> shardReady (readyMaps k) shard \<and> (\<forall>j<k. \<not> shardReady (readyMaps j) shard)"
  then have "\<forall>j. 0 \<le> j \<and> j < k \<longrightarrow> \<not> shardReady (readyMaps j) shard"
    by simp
  with a waitShardReady_loop_first_ready [of readyMaps k shard 0]
  show "waitShardReady readyMaps shard = (Inr (), map (\<lambda>j. 2 ^ j) [0 ..< k])"
    by (simp add: waitShardReady_def)
next
  assume "shardReady (readyMaps 0) shard"
  then show "waitShardReady readyMaps shard = (Inr (), [])"
    by (simp add: waitShardReady_def)
qed

lemma exampleReadyMaps_ready:
  "\<not> shardReady (exampleReadyMaps 0) Prime" "\<not> shardReady (exampleReadyMaps 1) Prime"
  "\<not> shardReady (exampleReadyMaps 2) Prime" "shardReady (exampleReadyMaps 3) Prime"
  by (simp_all add: shardReady_def exampleReadyMaps_def)

theorem waitShardReady_backoff_witness:
  "(\<forall>k. \<not> shardReady ((\<lambda>k. Map.empty) k) Cyprus1) \<and>
   waitShardReady (\<lambda>k. Map.empty) Cyprus1 = (Inl ShardTimeout, [1, 2, 4, 8, 16, 32, 64, 128, 256]) \<and>
   \<not> shardReady (exampleReadyMaps 0) Prime \<and> \<not> shardReady (exampleReadyMaps 1) Prime \<and>
   \<not> shardReady (exampleReadyMaps 2) Prime \<and> shardReady (exampleReadyMaps 3) Prime \<and>
   waitShardReady exampleReadyMaps Prime = (Inr (), [1, 2, 4]) \<and>
   shardReady ((\<lambda>k. [Prime \<mapsto> True]) 0) Prime \<and>
   waitShardReady (\<lambda>k. [Prime \<mapsto> True]) Prime = (Inr (), [])"
proof -
  have a: "\<forall>k. \<not> shardReady ((\<lambda>k. Map.empty) k) Cyprus1"
    by (simp add: shardReady_def)
  have b: "shardReady ((\<lambda>k. [Prime \<mapsto> True]) 0) Prime"
    by (simp add: shardReady_def)
  have c: "\<forall>j<3. \<not> shardReady (exampleReadyMaps j) Prime"
    by (simp add: shardReady_def exampleReadyMaps_def)
  have u: "map (\<lambda>j. 2 ^ j) [0 ..< 3] = [1, 2, 4 :: nat]"
    by (simp add: upt_conv_Cons)
  from waitShardReady_backoff [of "\<lambda>k. Map.empty" Cyprus1 0] a
  have "waitShardReady (\<lambda>k. Map.empty) Cyprus1 = (Inl ShardTimeout, [1, 2, 4, 8, 16, 32, 64, 128, 256])"
    by simp
  moreover from waitShardReady_backoff [of exampleReadyMaps Prime 3] c exampleReadyMaps_ready(4) u
  have "waitShardReady exampleReadyMaps Prime = (Inr (), [1, 2, 4])"
    by simp
  moreover from waitShardReady_backoff [of "\<lambda>k. [Prime \<mapsto> True]" Prime 0] b
  have "waitShardReady (\<lambda>k. [Prime \<mapsto> True]) Prime = (Inr (), [])"
    by simp
  ultimately show ?thesis using a b exampleReadyMaps_ready by blast
qed

section \<open>Bytes: results\<close>

lemma toBigInt_Nil [simp]: "toBigInt [] = 0" by (simp add: toBigInt_def)

lemma toBigInt_snoc [simp]: "toBigInt (bs @ [b]) = toBigInt bs * 256 + unat b"
  by (simp add: toBigInt_def)

lemma toBigInt_append: "toBigInt (xs @ ys) = toBigInt xs * 256 ^ length ys + toBigInt ys"
proof (induction ys rule: rev_induct)
  case Nil
  then show ?case by simp
next
  case (snoc y ys)
  have "toBigInt (xs @ ys @ [y]) = toBigInt ((xs @ ys) @ [y])" by simp
  also have "\<dots> = toBigInt (xs @ ys) * 256 + unat y" by (rule toBigInt_snoc)
  finally show ?case using snoc by (simp add: algebra_simps)
qed

lemma toBigInt_Cons: "toBigInt (b # bs) = unat b * 256 ^ length bs + toBigInt bs"
  using toBigInt_append [of "[b]" bs] toBigInt_snoc [of "[]" b] by simp

lemma toBigInt_replicate0 [simp]: "toBigInt (replicate k 0) = 0"
  by (induction k) (simp_all add: toBigInt_Cons)

lemma toBigInt_lt: "toBigInt bs < 256 ^ length bs"
proof (induction bs rule: rev_induct)
  case Nil
  then show ?case by simp
next
  case (snoc b bs)
  have "unat b < 256" using unsigned_less [of b] by simp
  with snoc show ?case by simp
qed

lemma unat_byte_of_nat: "n < 256 \<Longrightarrow> unat (of_nat n :: byte) = n"
  by (simp add: unat_of_nat)

lemma toBigInt_toBeArray [simp]: "toBigInt (toBeArray n) = n"
proof (induction n rule: toBeArray.induct)
  case (1 n)
  show ?case
  proof (cases "n = 0")
    case True
    then show ?thesis by (simp add: toBeArray.simps)
  next
    case False
    with 1 have "toBigInt (toBeArray (n div 256)) = n div 256" by simp
    with False show ?thesis
      by (subst toBeArray.simps) (simp add: unat_byte_of_nat)
  qed
qed

lemma toBeArray_toBigInt: "bs \<noteq> [] \<Longrightarrow> hd bs \<noteq> 0 \<Longrightarrow> toBeArray (toBigInt bs) = bs"
proof (induction bs rule: rev_induct)
  case Nil
  then show ?case by simp
next
  case (snoc b bs)
  show ?case
  proof (cases "bs = []")
    case True
    with snoc.prems have b: "b \<noteq> 0" by simp
    then have "unat b \<noteq> 0" by (simp add: unat_eq_0)
    moreover have "unat b < 256" using unsigned_less [of b] by simp
    ultimately show ?thesis using True
      by (subst toBeArray.simps) (simp add: toBeArray.simps toBigInt_Cons)
  next
    case False
    with snoc have ih: "toBeArray (toBigInt bs) = bs" by simp
    have lt: "unat b < 256" using unsigned_less [of b] by simp
    from False snoc.prems ih have "toBigInt bs \<noteq> 0"
      by (metis toBeArray.simps)
    with lt ih show ?thesis
      by (subst toBeArray.simps) simp
  qed
qed

lemma length_toBeArray_le: "n < 256 ^ k \<Longrightarrow> length (toBeArray n) \<le> k"
proof (induction n arbitrary: k rule: toBeArray.induct)
  case (1 n)
  show ?case
  proof (cases "n = 0")
    case True
    then show ?thesis by (simp add: toBeArray.simps)
  next
    case False
    with "1.prems" obtain k' where k: "k = Suc k'" by (cases k) auto
    with "1.prems" have "n div 256 < 256 ^ k'" by (simp add: less_mult_imp_div_less)
    with 1 False have "length (toBeArray (n div 256)) \<le> k'" by simp
    with False k show ?thesis by (subst toBeArray.simps) simp
  qed
qed

lemma toBeHex_Inr: "toBeHex v w = Inr bs \<Longrightarrow> length bs = w \<and> toBigInt bs = v"
  by (auto simp: toBeHex_def toBigInt_append split: if_splits)

lemma toBeHex_fits: "v < 256 ^ w \<Longrightarrow> \<exists>bs. toBeHex v w = Inr bs"
  by (simp add: toBeHex_def length_toBeArray_le)

section \<open>Derivation of children: results\<close>

lemma new_HDNodeWallet_Inr:
  assumes "new_HDNodeWallet c k afp cc pth idx dpth mn = Inr n"
  shows "depth n = dpth \<and> index n = idx \<and> chainCode n = cc \<and> path n = pth \<and>
         privateKey n = k \<and> accountFingerprint n = afp \<and> mnemonic n = mn \<and> coinType n = None \<and>
         constructed c n"
  using assms
  by (auto simp: new_HDNodeWallet_def constructed_def split: sum.splits)

lemma HDNodeWallet_deriveChild_Inr:
  assumes "HDNodeWallet_deriveChild c this idx = Inr n"
  shows "idx \<le> 0xffffffff \<and> index n = idx \<and>
         depth n = snd (HDNodeWallet_childPath (path this) (depth this) idx) \<and>
         path n = fst (HDNodeWallet_childPath (path this) (depth this) idx) \<and>
         constructed c n \<and>
         (\<exists>IR IL. ser_I c idx (chainCode this) (publicKey this) (Some (privateKey this)) = Inr (IR, IL) \<and>
                  chainCode n = IR \<and> childKey c IL (privateKey this) = Inr (privateKey n))"
  using assms
  by (auto simp: HDNodeWallet_deriveChild_def Let_def split: if_splits prod.splits sum.splits
           dest!: new_HDNodeWallet_Inr)

lemma HDNodeWallet_childPath_depth:
  "snd (HDNodeWallet_childPath pth dpth idx) = (if sixFields pth then dpth else dpth + 1)"
  by (auto simp: HDNodeWallet_childPath_def sixFields_def Let_def split: option.splits)

lemma HDNodeVoidWallet_deriveChild_Inr:
  assumes "HDNodeVoidWallet_deriveChild c this idx = Inr v"
  shows "idx \<le> 0xffffffff \<and> index v = idx \<and> depth v = depth this + 1 \<and>
         (\<exists>IR IL Ki. ser_I c idx (chainCode this) (publicKey this) None = Inr (IR, IL) \<and>
                  chainCode v = IR \<and> addPoints c IL (publicKey this) = Inr Ki \<and>
                  publicKey v = Ki \<and> computeAddress c Ki = Inr (address v))"
  using assms
  by (auto simp: HDNodeVoidWallet_deriveChild_def new_HDNodeVoidWallet_def Let_def
           split: if_splits prod.splits sum.splits)

lemma ser_I_unhardened:
  "\<not> hardened idx \<Longrightarrow> ser_I c idx cc pub (Some k) = ser_I c idx cc pub None"
  by (simp add: ser_I_def)

lemma not_hardened: "idx < 2 ^ 31 \<Longrightarrow> \<not> hardened idx"
  by (simp add: hardened_def HardenedBit_def)

lemma neuter_fields [simp]:
  "address (neuter c n) = address n" "publicKey (neuter c n) = publicKey n"
  "chainCode (neuter c n) = chainCode n" "depth (neuter c n) = depth n"
  "index (neuter c n) = index n"
  by (simp_all add: neuter_def new_HDNodeVoidWallet_def)


subsection \<open>The example collaborators\<close>

lemma length_be32: "v < 256 ^ 32 \<Longrightarrow> length (be32 v) = 32"
  using length_toBeArray_le [of v 32] by (simp add: be32_def)

lemma toBigInt_be32 [simp]: "toBigInt (be32 v) = v"
  by (simp add: be32_def toBigInt_append)

lemma exampleN_small: "r < exampleN \<Longrightarrow> r < 256 ^ 32"
  by (simp add: exampleN_def)

lemma mod_exampleN_lt: "x mod exampleN < 256 ^ 32"
  by (rule exampleN_small) (simp add: exampleN_def)

lemma exampleExt_simps [simp]:
  "signingKey_publicKey exampleExt k = Inr (4 # be32 (toBigInt k mod exampleN) @ replicate 32 0)"
  "signingKey_compressedPublicKey exampleExt k = Inr (2 # be32 (toBigInt k mod exampleN))"
  "addPoints exampleExt a p = Inr (2 # be32 ((toBigInt a + toBigInt (byteSlice p 1 33)) mod exampleN))"
  "computeAddress exampleExt p = Inr (''0x'' @ hexlify (byteSlice p 13 33))"
  "curveN exampleExt = exampleN"
  by (simp_all add: exampleExt_def)

lemma childKey_exampleExt: "\<exists>ki. childKey exampleExt IL k = Inr ki"
  unfolding childKey_def using toBeHex_fits [OF mod_exampleN_lt]
  by (simp add: exampleN_def)

lemma curve_contract_exampleExt: "curve_contract exampleExt"
  unfolding curve_contract_def
proof (intro conjI allI impI)
  fix k U P
  assume "signingKey_publicKey exampleExt k = Inr U"
    and "signingKey_compressedPublicKey exampleExt k = Inr P"
  then have U: "U = 4 # be32 (toBigInt k mod exampleN) @ replicate 32 0"
    and P: "P = 2 # be32 (toBigInt k mod exampleN)"
    by simp_all
  have "length (be32 (toBigInt k mod exampleN)) = 32"
    by (rule length_be32) (rule mod_exampleN_lt)
  then have "byteSlice U 13 33 = byteSlice P 13 33"
    by (simp add: U P byteSlice_def)
  then show "computeAddress exampleExt U = computeAddress exampleExt P"
    by simp
next
  fix a k P Q ki
  assume P: "signingKey_compressedPublicKey exampleExt k = Inr P"
    and Q: "addPoints exampleExt a P = Inr Q"
    and ki: "childKey exampleExt a k = Inr ki"
  from ki have v: "toBigInt ki = (toBigInt a + toBigInt k) mod exampleN"
    by (auto simp: childKey_def dest: toBeHex_Inr split: if_splits)
  have len: "length (be32 (toBigInt k mod exampleN)) = 32"
    by (rule length_be32) (rule mod_exampleN_lt)
  from P have "byteSlice P 1 33 = be32 (toBigInt k mod exampleN)"
    using len by (auto simp: byteSlice_def)
  with Q have "Q = 2 # be32 ((toBigInt a + toBigInt k mod exampleN) mod exampleN)"
    by simp
  then show "signingKey_compressedPublicKey exampleExt ki = Inr Q"
    by (simp add: v mod_add_right_eq)
qed

lemma ser_I_private: "\<exists>IR IL. ser_I c idx cc pub (Some k) = Inr (IR, IL)"
  by (cases "hardened idx") (simp_all add: ser_I_def Let_def)

lemma HDNodeWallet_deriveChild_exampleExt:
  assumes "idx \<le> 0xffffffff"
  shows "\<exists>f. HDNodeWallet_deriveChild exampleExt n idx = Inr f"
proof -
  obtain pth newDepth where cp: "HDNodeWallet_childPath (path n) (depth n) idx = (pth, newDepth)"
    by (cases "HDNodeWallet_childPath (path n) (depth n) idx")
  obtain IR IL where s: "ser_I exampleExt idx (chainCode n) (publicKey n) (Some (privateKey n)) = Inr (IR, IL)"
    using ser_I_private by blast
  obtain ki where k: "childKey exampleExt IL (privateKey n) = Inr ki"
    using childKey_exampleExt by blast
  show ?thesis
    using assms by (simp add: HDNodeWallet_deriveChild_def cp s k new_HDNodeWallet_def)
qed

lemma HDNodeVoidWallet_deriveChild_exampleExt:
  assumes "idx < 2 ^ 31"
  shows "\<exists>v. HDNodeVoidWallet_deriveChild exampleExt n idx = Inr v"
proof -
  from assms have "\<not> hardened idx" by (rule not_hardened)
  then obtain IR IL where s: "ser_I exampleExt idx (chainCode n) (publicKey n) None = Inr (IR, IL)"
    by (auto simp: ser_I_def Let_def)
  show ?thesis
    using assms by (simp add: HDNodeVoidWallet_deriveChild_def s Let_def)
qed

lemma toBeArray_7: "toBeArray 7 = [7]"
  by (simp add: toBeArray.simps)

lemma hexlify_simps [simp]:
  "hexlify [] = []" "hexlify (0 # bs) = ''00'' @ hexlify bs" "hexlify (7 # bs) = ''07'' @ hexlify bs"
  by (simp_all add: hexlify_def)

lemma replicate_19: "replicate 19 x = [x, x, x, x, x, x, x, x, x, x, x, x, x, x, x, x, x, x, x]"
  by (simp add: numeral_eq_Suc)

lemma be32_7: "be32 7 = replicate 31 0 @ [7]"
  by (simp add: be32_def toBeArray_7)

lemma constructed_exampleNode: "constructed exampleExt exampleNode"
proof -
  have "byteSlice (4 # be32 7 @ replicate 32 0) 13 33 = replicate 19 0 @ [7]"
    by (simp add: be32_7 byteSlice_def)
  moreover have "toBigInt (privateKey exampleNode) mod exampleN = 7"
    by (simp add: exampleNode_def exampleN_def)
  ultimately show ?thesis
    by (simp add: constructed_def replicate_19) (simp add: exampleNode_def)
qed


text \<open>
  C2. For every full HD node (one built by the constructor) and every non-hardened child
  index \<open>idx < 2^31\<close>: neutering the node and then deriving child \<open>idx\<close> yields the same
  address as deriving child \<open>idx\<close> from the full node and then neutering the result. The
  curve library is a parameter that satisfies \<open>curve_contract\<close>, and both derivations
  return a node.
\<close>

theorem neuter_deriveChild_commute:
  assumes contract: "curve_contract c"
    and node: "constructed c n"
    and idx: "idx < 2 ^ 31"
    and void: "HDNodeVoidWallet_deriveChild c (neuter c n) idx = Inr v"
    and full: "HDNodeWallet_deriveChild c n idx = Inr f"
  shows "address v = address (neuter c f)"
proof -
  from HDNodeVoidWallet_deriveChild_Inr [OF void]
  obtain IR IL Ki where
    s1: "ser_I c idx (chainCode n) (publicKey n) None = Inr (IR, IL)" and
    add: "addPoints c IL (publicKey n) = Inr Ki" and
    av: "computeAddress c Ki = Inr (address v)"
    by auto
  from HDNodeWallet_deriveChild_Inr [OF full]
  obtain IR' IL' where
    s2: "ser_I c idx (chainCode n) (publicKey n) (Some (privateKey n)) = Inr (IR', IL')" and
    key: "childKey c IL' (privateKey n) = Inr (privateKey f)" and
    cf: "constructed c f"
    by auto
  from s1 s2 ser_I_unhardened [OF not_hardened [OF idx]] have il: "IL' = IL"
    by (metis Pair_inject sum.inject(2))
  from node have pk: "signingKey_compressedPublicKey c (privateKey n) = Inr (publicKey n)"
    by (simp add: constructed_def)
  from contract pk add key il have cp: "signingKey_compressedPublicKey c (privateKey f) = Inr Ki"
    unfolding curve_contract_def by blast
  from cf obtain U where
    u: "signingKey_publicKey c (privateKey f) = Inr U" and
    af: "computeAddress c U = Inr (address f)"
    by (auto simp: constructed_def split: sum.splits)
  from contract u cp have "computeAddress c U = computeAddress c Ki"
    unfolding curve_contract_def by blast
  with av af show ?thesis by simp
qed

theorem neuter_deriveChild_commute_witness:
  "curve_contract exampleExt \<and> constructed exampleExt exampleNode \<and> (1 :: nat) < 2 ^ 31 \<and>
   (case (HDNodeVoidWallet_deriveChild exampleExt (neuter exampleExt exampleNode) 1,
          HDNodeWallet_deriveChild exampleExt exampleNode 1) of
      (Inr v, Inr f) \<Rightarrow> address v = address (neuter exampleExt f)
    | _ \<Rightarrow> False)"
proof -
  have i: "(1 :: nat) < 2 ^ 31" by simp
  obtain v where v: "HDNodeVoidWallet_deriveChild exampleExt (neuter exampleExt exampleNode) 1 = Inr v"
    using HDNodeVoidWallet_deriveChild_exampleExt [OF i] by blast
  obtain f where f: "HDNodeWallet_deriveChild exampleExt exampleNode 1 = Inr f"
    using HDNodeWallet_deriveChild_exampleExt [of 1] by auto
  from neuter_deriveChild_commute [OF curve_contract_exampleExt constructed_exampleNode i v f]
  show ?thesis
    using curve_contract_exampleExt constructed_exampleNode v f by simp
qed


text \<open>
  C3, as amended. For every child index that \<open>deriveChild\<close> accepts: the child of a neutered
  node has a depth one greater than its parent's, and so has the child of a full node,
  unless the full node's path has exactly six fields; then \<open>deriveChild\<close> replaces the last
  field of the path and the child has the depth of its parent.
\<close>

theorem deriveChild_depth:
  "(HDNodeVoidWallet_deriveChild c v idx = Inr v' \<longrightarrow> depth v' = depth v + 1) \<and>
   (HDNodeWallet_deriveChild c n idx = Inr n' \<longrightarrow>
      depth n' = (if sixFields (path n) then depth n else depth n + 1))"
  using HDNodeVoidWallet_deriveChild_Inr [of c v idx v'] HDNodeWallet_deriveChild_Inr [of c n idx n']
  by (simp add: HDNodeWallet_childPath_depth)

lemma sixFields_exampleNode: "sixFields (path exampleNode)"
  by (simp add: sixFields_def exampleNode_def examplePath_def)

theorem deriveChild_depth_witness:
  "(case HDNodeVoidWallet_deriveChild exampleExt (neuter exampleExt exampleNode) 1 of
      Inr v' \<Rightarrow> depth v' = 6 | Inl e \<Rightarrow> False) \<and>
   (case HDNodeWallet_deriveChild exampleExt (exampleNode\<lparr>path := None\<rparr>) 1 of
      Inr n' \<Rightarrow> depth n' = 6 | Inl e \<Rightarrow> False) \<and>
   (case HDNodeWallet_deriveChild exampleExt exampleNode 1 of
      Inr n' \<Rightarrow> depth n' = 5 | Inl e \<Rightarrow> False)"
proof -
  obtain v where v: "HDNodeVoidWallet_deriveChild exampleExt (neuter exampleExt exampleNode) 1 = Inr v"
    using HDNodeVoidWallet_deriveChild_exampleExt [of 1] by auto
  obtain f where f: "HDNodeWallet_deriveChild exampleExt (exampleNode\<lparr>path := None\<rparr>) 1 = Inr f"
    using HDNodeWallet_deriveChild_exampleExt [of 1] by auto
  obtain g where g: "HDNodeWallet_deriveChild exampleExt exampleNode 1 = Inr g"
    using HDNodeWallet_deriveChild_exampleExt [of 1] by auto
  have d: "depth exampleNode = 5" by (simp add: exampleNode_def)
  from deriveChild_depth [of exampleExt "neuter exampleExt exampleNode" 1 v
      "exampleNode\<lparr>path := None\<rparr>" f] v f
  have "depth v = 6 \<and> depth f = 6"
    by (simp add: d sixFields_def)
  moreover from deriveChild_depth [of exampleExt "neuter exampleExt exampleNode" 1 v exampleNode g] g
  have "depth g = 5"
    by (simp add: d sixFields_exampleNode)
  ultimately show ?thesis using v f g by simp
qed

text \<open>
  C3 as stated fails: the child of a full node at the address level (a path of six fields)
  has the depth of its parent.
\<close>

theorem deriveChild_depth_counterexample:
  "map_sum id depth (HDNodeWallet_deriveChild exampleExt exampleNode 1) = Inr (depth exampleNode)"
proof -
  obtain g where g: "HDNodeWallet_deriveChild exampleExt exampleNode 1 = Inr g"
    using HDNodeWallet_deriveChild_exampleExt [of 1] by auto
  from HDNodeWallet_deriveChild_Inr [OF g] have "depth g = depth exampleNode"
    by (simp add: HDNodeWallet_childPath_depth sixFields_exampleNode)
  with g show ?thesis by simp
qed


section \<open>Base58Check and extended keys: results\<close>


lemma index_of_nth:
  "distinct xs \<Longrightarrow> i < length xs \<Longrightarrow> index_of (xs ! i) xs = Some i"
proof (induction xs arbitrary: i)
  case Nil
  then show ?case by simp
next
  case (Cons x xs)
  show ?case
  proof (cases i)
    case 0
    then show ?thesis by simp
  next
    case (Suc j)
    with Cons.prems have "xs ! j \<in> set xs" "x \<notin> set xs" by simp_all
    then have "xs ! j \<noteq> x" by blast
    with Suc Cons show ?thesis by simp
  qed
qed

lemma Alphabet_distinct: "distinct Alphabet" and Alphabet_length: "length Alphabet = 58"
  by (simp_all add: Alphabet_def)

lemma getAlpha_Alphabet: "d < 58 \<Longrightarrow> getAlpha (Alphabet ! d) = Inr d"
  by (simp add: getAlpha_def index_of_nth Alphabet_distinct Alphabet_length)

lemma decodeBase58_loop_snoc:
  "decodeBase58_loop r (s @ [letter]) =
     (case decodeBase58_loop r s of
        Inl e \<Rightarrow> Inl e
      | Inr v \<Rightarrow> (case getAlpha letter of Inl e \<Rightarrow> Inl e | Inr d \<Rightarrow> Inr (v * 58 + d)))"
  by (induction s arbitrary: r) (simp_all split: sum.splits)

lemma decodeBase58_loop_digits: "decodeBase58_loop 0 (base58_digits v) = Inr v"
proof (induction v rule: base58_digits.induct)
  case (1 v)
  show ?case
  proof (cases "v = 0")
    case True
    then show ?thesis by (simp add: base58_digits.simps)
  next
    case False
    with 1 have "decodeBase58_loop 0 (base58_digits (v div 58)) = Inr (v div 58)" by simp
    with False show ?thesis
      by (subst base58_digits.simps) (simp add: decodeBase58_loop_snoc getAlpha_Alphabet)
  qed
qed

lemma decodeBase58_loop_zeros:
  "decodeBase58_loop 0 (replicate k (Alphabet ! 0) @ s) = decodeBase58_loop 0 s"
  by (induction k) (simp_all add: getAlpha_Alphabet)

lemma decodeBase58_encodeBase58: "decodeBase58 (encodeBase58 bs) = Inr (toBigInt bs)"
  by (simp add: decodeBase58_def encodeBase58_def decodeBase58_loop_zeros decodeBase58_loop_digits)

lemma hd_toBeArray: "0 < v \<Longrightarrow> toBeArray v \<noteq> [] \<and> hd (toBeArray v) \<noteq> 0"
proof (induction v rule: toBeArray.induct)
  case (1 n)
  show ?case
  proof (cases "n div 256 = 0")
    case True
    with "1.prems" have "n < 256" "n \<noteq> 0"
      by (simp_all add: div_eq_0_iff)
    then have u: "unat (of_nat n :: byte) = n"
      by (simp add: unat_byte_of_nat)
    have "(of_nat n :: byte) \<noteq> 0"
    proof
      assume "(of_nat n :: byte) = 0"
      with u have "n = 0" by simp
      with \<open>n \<noteq> 0\<close> show False by simp
    qed
    moreover from True \<open>n \<noteq> 0\<close> have "toBeArray n = [of_nat n]"
      by (simp add: toBeArray.simps [of n] toBeArray.simps [of 0])
    ultimately show ?thesis by simp
  next
    case False
    with 1 have "toBeArray (n div 256) \<noteq> [] \<and> hd (toBeArray (n div 256)) \<noteq> 0" by simp
    with "1.prems" show ?thesis
      by (subst toBeArray.simps, subst (2) toBeArray.simps) simp
  qed
qed

lemma toBeArray_numeral:
  "toBeArray (numeral k) = toBeArray (numeral k div 256) @ [of_nat (numeral k mod 256)]"
  by (subst toBeArray.simps) simp

lemma toBeArray_0: "toBeArray 0 = []"
  by (simp add: toBeArray.simps)

lemma decode_exampleXpub:
  "decodeBase58 exampleXpub = Inr 5295605526953256720615635285503376767279418385084892937611138504322684553371727892314562661399281687223636364296835101264812477471980217329222640745760575472547170189119037280856924012194963077921"
  by (simp add: decodeBase58_def exampleXpub_def getAlpha_def Alphabet_def)

lemma decode_tamperedXpub:
  "decodeBase58 tamperedXpub = Inr 5295605526953256720615635285503376767279418385084892937611138504322684553371727892314562661399281687223636364296835101264812477471980217329222640745760575472547170189119037280856924012194963077922"
  by (simp add: decodeBase58_def tamperedXpub_def getAlpha_def Alphabet_def)

lemma bytes_exampleXpub:
  "toBeArray 5295605526953256720615635285503376767279418385084892937611138504322684553371727892314562661399281687223636364296835101264812477471980217329222640745760575472547170189119037280856924012194963077921
     = exampleXpubPayload @ [171, 71, 59, 33]"
  by (simp add: toBeArray_numeral toBeArray_0 exampleXpubPayload_def)

lemma bytes_tamperedXpub:
  "toBeArray 5295605526953256720615635285503376767279418385084892937611138504322684553371727892314562661399281687223636364296835101264812477471980217329222640745760575472547170189119037280856924012194963077922
     = exampleXpubPayload @ [171, 71, 59, 34]"
  by (simp add: toBeArray_numeral toBeArray_0 exampleXpubPayload_def)

lemma length_exampleXpubPayload: "length exampleXpubPayload = 78"
  by (simp add: exampleXpubPayload_def)

lemma fromExtendedKey_82:
  assumes "decodeBase58 k = Inr v" and "toBeArray v = payload @ cs"
    and "length payload = 78" and "length cs = 4"
  shows "fromExtendedKey c k =
     (if byteSlice payload 0 4 = xpub_mainnet \<or> byteSlice payload 0 4 = xpub_testnet then
        (case computeAddress c (byteSlice payload 45 78) of
           Inl e \<Rightarrow> Inl e
         | Inr addr \<Rightarrow>
             Inr (VoidNode (new_HDNodeVoidWallet c addr (byteSlice payload 45 78) (byteSlice payload 5 9)
                    (byteSlice payload 13 45) None (toBigInt (byteSlice payload 9 13)) (unat (payload ! 4)))))
      else if byteSlice payload 0 4 = xprv_mainnet then
        (if payload ! 45 \<noteq> 0 then Inl InvalidExtendedKeyPrefix
         else
           (case new_HDNodeWallet c (byteSlice payload 46 78) (byteSlice payload 5 9) (byteSlice payload 13 45)
                   None (toBigInt (byteSlice payload 9 13)) (unat (payload ! 4)) None of
              Inl e \<Rightarrow> Inl e
            | Inr n \<Rightarrow> Inr (FullNode n)))
      else Inl InvalidExtendedKeyPrefix)"
proof -
  have s: "byteSlice (payload @ cs) a b = byteSlice payload a b" if "b \<le> 78" for a b
    using that assms(3) by (simp add: byteSlice_def)
  have k: "byteSlice (payload @ cs) 45 78 = byteSlice payload 45 78"
    "byteSlice (byteSlice payload 45 78) (Suc 0) 33 = byteSlice payload 46 78"
    using assms(3) by (simp_all add: byteSlice_def drop_take)
  have n: "(payload @ cs) ! 4 = payload ! 4" "byteSlice payload 45 78 \<noteq> []"
    "hd (byteSlice payload 45 78) = payload ! 45"
    using assms(3) by (simp_all add: nth_append byteSlice_def hd_drop_conv_nth)
  show ?thesis
    using assms
    by (simp add: fromExtendedKey_def Let_def s k n)
qed

lemma exampleXpub_fields:
  "byteSlice exampleXpubPayload 0 4 = xpub_mainnet" "byteSlice exampleXpubPayload 5 9 = [0, 0, 0, 0]"
  "toBigInt (byteSlice exampleXpubPayload 9 13) = 0" "unat (exampleXpubPayload ! 4) = 0"
  by (simp_all add: exampleXpubPayload_def byteSlice_def xpub_mainnet_def toBigInt_def)

text \<open>
  C4. The claim is that \<open>fromExtendedKey\<close> returns a node only when length, checksum and
  prefix are all valid. The code does not do this: it accepts every 82-byte payload with a
  known prefix whatever its last four bytes are. Whatever the hash function is, the two
  keys below, which differ in the checksum only, decode to the same node (when
  \<open>computeAddress\<close> accepts the public key), although at most one of them carries the
  checksum of the 78 bytes.
\<close>

theorem fromExtendedKey_checksum_unchecked:
  "fromExtendedKey c exampleXpub = exampleXpubNode c \<and>
   fromExtendedKey c tamperedXpub = exampleXpubNode c \<and>
   tamperedXpub \<noteq> exampleXpub \<and>
   \<not> (encodeBase58Check c exampleXpubPayload = exampleXpub \<and>
      encodeBase58Check c exampleXpubPayload = tamperedXpub)"
proof -
  have a: "fromExtendedKey c exampleXpub = exampleXpubNode c"
    using fromExtendedKey_82 [OF decode_exampleXpub bytes_exampleXpub length_exampleXpubPayload, where c = c]
    by (simp add: exampleXpub_fields exampleXpubNode_def cong: sum.case_cong)
  have b: "fromExtendedKey c tamperedXpub = exampleXpubNode c"
    using fromExtendedKey_82 [OF decode_tamperedXpub bytes_tamperedXpub length_exampleXpubPayload, where c = c]
    by (simp add: exampleXpub_fields exampleXpubNode_def cong: sum.case_cong)
  have "tamperedXpub \<noteq> exampleXpub"
    by (simp add: tamperedXpub_def exampleXpub_def)
  with a b show ?thesis by auto
qed

lemma payload_fields:
  assumes "length a = 4" "length d = 1" "length fp = 4" "length i = 4" "length cc = 32"
    "length key = 33"
  shows "byteSlice (a @ d @ fp @ i @ cc @ key) 0 4 = a"
    "(a @ d @ fp @ i @ cc @ key) ! 4 = hd d"
    "byteSlice (a @ d @ fp @ i @ cc @ key) 5 9 = fp"
    "byteSlice (a @ d @ fp @ i @ cc @ key) 9 13 = i"
    "byteSlice (a @ d @ fp @ i @ cc @ key) 13 45 = cc"
    "byteSlice (a @ d @ fp @ i @ cc @ key) 45 78 = key"
    "byteSlice (a @ d @ fp @ i @ cc @ key) 46 78 = tl key"
    "(a @ d @ fp @ i @ cc @ key) ! 45 = hd key"
    "length (a @ d @ fp @ i @ cc @ key) = 78"
proof -
  from assms(2) obtain d0 where d: "d = [d0]"
    by (auto simp: length_Suc_conv)
  from assms(6) obtain k0 ks where key: "key = k0 # ks"
    by (cases key) auto
  show "byteSlice (a @ d @ fp @ i @ cc @ key) 0 4 = a"
    "(a @ d @ fp @ i @ cc @ key) ! 4 = hd d"
    "byteSlice (a @ d @ fp @ i @ cc @ key) 5 9 = fp"
    "byteSlice (a @ d @ fp @ i @ cc @ key) 9 13 = i"
    "byteSlice (a @ d @ fp @ i @ cc @ key) 13 45 = cc"
    "byteSlice (a @ d @ fp @ i @ cc @ key) 45 78 = key"
    "byteSlice (a @ d @ fp @ i @ cc @ key) 46 78 = tl key"
    "(a @ d @ fp @ i @ cc @ key) ! 45 = hd key"
    "length (a @ d @ fp @ i @ cc @ key) = 78"
    using assms(1,3,4,5,6) unfolding d
    by (simp_all add: byteSlice_def nth_append key)
qed

lemma fromExtendedKey_encodeBase58Check:
  assumes "sha256_size c" and "length payload = 78" and "hd payload \<noteq> 0"
  shows "fromExtendedKey c (encodeBase58Check c payload) =
     (if byteSlice payload 0 4 = xpub_mainnet \<or> byteSlice payload 0 4 = xpub_testnet then
        (case computeAddress c (byteSlice payload 45 78) of
           Inl e \<Rightarrow> Inl e
         | Inr addr \<Rightarrow>
             Inr (VoidNode (new_HDNodeVoidWallet c addr (byteSlice payload 45 78) (byteSlice payload 5 9)
                    (byteSlice payload 13 45) None (toBigInt (byteSlice payload 9 13)) (unat (payload ! 4)))))
      else if byteSlice payload 0 4 = xprv_mainnet then
        (if payload ! 45 \<noteq> 0 then Inl InvalidExtendedKeyPrefix
         else
           (case new_HDNodeWallet c (byteSlice payload 46 78) (byteSlice payload 5 9) (byteSlice payload 13 45)
                   None (toBigInt (byteSlice payload 9 13)) (unat (payload ! 4)) None of
              Inl e \<Rightarrow> Inl e
            | Inr n \<Rightarrow> Inr (FullNode n)))
      else Inl InvalidExtendedKeyPrefix)"
proof -
  let ?cs = "byteSlice (sha256 c (sha256 c payload)) 0 4"
  from assms(1) have cs: "length ?cs = 4"
    by (simp add: sha256_size_def byteSlice_def)
  from assms(2) have "payload \<noteq> []" by auto
  with assms(3) have "payload @ ?cs \<noteq> []" "hd (payload @ ?cs) \<noteq> 0"
    by simp_all
  then have be: "toBeArray (toBigInt (payload @ ?cs)) = payload @ ?cs"
    by (rule toBeArray_toBigInt)
  have dec: "decodeBase58 (encodeBase58Check c payload) = Inr (toBigInt (payload @ ?cs))"
    by (simp add: encodeBase58Check_def decodeBase58_encodeBase58)
  from fromExtendedKey_82 [OF dec be assms(2) cs] show ?thesis .
qed

lemma fromExtendedKey_accepts:
  assumes "sha256_size c" and "fromExtendedKey c k = Inr node"
  shows "\<exists>v. decodeBase58 k = Inr v \<and> length (toBeArray v) = 82 \<and>
           (if isFull node then byteSlice (toBeArray v) 0 4 = xprv_mainnet
            else byteSlice (toBeArray v) 0 4 = xpub_mainnet \<or> byteSlice (toBeArray v) 0 4 = xpub_testnet)"
proof -
  from assms(2) obtain v where v: "decodeBase58 k = Inr v"
    by (auto simp: fromExtendedKey_def split: sum.splits)
  let ?bs = "toBeArray v"
  from assms(2) v have chk: "length ?bs = 82 \<or> encodeBase58Check c (byteSlice ?bs 0 78) = k"
    and long: "\<not> length ?bs < 5"
    by (auto simp: fromExtendedKey_def Let_def split: if_splits)
  have len: "length ?bs = 82"
  proof (rule ccontr)
    assume n: "length ?bs \<noteq> 82"
    let ?data = "take 78 ?bs"
    let ?cs = "byteSlice (sha256 c (sha256 c ?data)) 0 4"
    from n chk have enc: "encodeBase58 (?data @ ?cs) = k"
      by (simp add: encodeBase58Check_def byteSlice_def)
    from assms(1) have cs: "length ?cs = 4"
      by (simp add: sha256_size_def byteSlice_def)
    from long have ne: "?bs \<noteq> []" by auto
    then have "v \<noteq> 0" using toBeArray_0 by (cases "v = 0") simp_all
    then have "hd ?bs \<noteq> 0" using hd_toBeArray [of v] by simp
    moreover from ne have "?data \<noteq> []" by simp
    ultimately have "?data @ ?cs \<noteq> []" "hd (?data @ ?cs) \<noteq> 0"
      by simp_all
    then have be: "toBeArray (toBigInt (?data @ ?cs)) = ?data @ ?cs"
      by (rule toBeArray_toBigInt)
    from enc v decodeBase58_encodeBase58 [of "?data @ ?cs"] have "v = toBigInt (?data @ ?cs)"
      by simp
    with be have "?bs = ?data @ ?cs" by simp
    then have "length ?bs = length (?data @ ?cs)" by (rule arg_cong)
    then have "length ?bs = min (length ?bs) 78 + 4"
      using cs by (simp only: length_append length_take)
    with n show False by arith
  qed
  from assms(2) v len show ?thesis
    by (auto simp: fromExtendedKey_def Let_def isFull_def split: if_splits sum.splits)
qed

lemma zpad_field:
  assumes "v < 256 ^ w"
  shows "\<exists>bs. zpad v w = Inr bs \<and> length bs = w \<and> toBigInt bs = v"
proof -
  from toBeHex_fits [OF assms] obtain bs where "toBeHex v w = Inr bs" by blast
  with toBeHex_Inr [of v w bs] show ?thesis by (simp add: zpad_def)
qed

lemma prefixes_distinct:
  "xprv_mainnet \<noteq> xpub_mainnet" "xprv_mainnet \<noteq> xpub_testnet"
  "length xprv_mainnet = 4" "length xpub_mainnet = 4" "hd xprv_mainnet \<noteq> 0" "hd xpub_mainnet \<noteq> 0"
  by (simp_all add: xprv_mainnet_def xpub_mainnet_def xpub_testnet_def)

lemma extendedKey_roundtrip_full:
  assumes sha: "sha256_size c" and wf: "wellFormed c (FullNode n)" and dp: "depth n < 256"
  shows "\<exists>key n'. HDNodeWallet_extendedKey c n = Inr key \<and> fromExtendedKey c key = Inr (FullNode n') \<and>
           address n' = address n \<and> chainCode n' = chainCode n \<and> depth n' = depth n \<and>
           index n' = index n"
proof -
  from wf have len: "length (accountFingerprint n) = 4" "length (chainCode n) = 32"
    "length (0 # privateKey n) = 33" and ib: "index n < 256 ^ 4" and con: "constructed c n"
    by (simp_all add: wellFormed_def)
  from dp zpad_field [of "depth n" 1] obtain d where
    d: "zpad (depth n) 1 = Inr d" "length d = 1" "toBigInt d = depth n" by auto
  from ib zpad_field [of "index n" 4] obtain i where
    i: "zpad (index n) 4 = Inr i" "length i = 4" "toBigInt i = index n" by auto
  let ?p = "xprv_mainnet @ d @ accountFingerprint n @ i @ chainCode n @ (0 # privateKey n)"
  note f = payload_fields [OF prefixes_distinct(3) d(2) len(1) i(2) len(2) len(3)]
  from d(2) obtain d0 where d0: "d = [d0]" by (auto simp: length_Suc_conv)
  with d(3) have ud: "unat (hd d) = depth n" by (simp add: toBigInt_Cons)
  have key: "HDNodeWallet_extendedKey c n = Inr (encodeBase58Check c ?p)"
    using dp d(1) i(1) by (simp add: HDNodeWallet_extendedKey_def)
  have hd: "hd ?p \<noteq> 0"
    using prefixes_distinct(5) by (simp add: xprv_mainnet_def)
  from con obtain U where U: "signingKey_publicKey c (privateKey n) = Inr U"
    "computeAddress c U = Inr (address n)"
    "signingKey_compressedPublicKey c (privateKey n) = Inr (publicKey n)"
    by (auto simp: constructed_def split: sum.splits)
  obtain n' where n': "new_HDNodeWallet c (privateKey n) (accountFingerprint n) (chainCode n) None
      (index n) (depth n) None = Inr n'" and a: "address n' = address n"
    using U by (simp add: new_HDNodeWallet_def)
  from new_HDNodeWallet_Inr [OF n'] have fields: "chainCode n' = chainCode n" "depth n' = depth n"
    "index n' = index n" by simp_all
  have "fromExtendedKey c (encodeBase58Check c ?p) = Inr (FullNode n')"
    by (subst fromExtendedKey_encodeBase58Check [OF sha f(9) hd])
       (simp add: f prefixes_distinct ud i(3) n')
  with key a fields show ?thesis by blast
qed

lemma extendedKey_roundtrip_void:
  assumes sha: "sha256_size c" and wf: "wellFormed c (VoidNode n)" and dp: "depth n < 256"
  shows "\<exists>key n'. HDNodeVoidWallet_extendedKey c n = Inr key \<and> fromExtendedKey c key = Inr (VoidNode n') \<and>
           address n' = address n \<and> chainCode n' = chainCode n \<and> depth n' = depth n \<and>
           index n' = index n"
proof -
  from wf have len: "length (accountFingerprint n) = 4" "length (chainCode n) = 32"
    "length (publicKey n) = 33" and ib: "index n < 256 ^ 4"
    and addr: "computeAddress c (publicKey n) = Inr (address n)"
    by (simp_all add: wellFormed_def)
  from dp zpad_field [of "depth n" 1] obtain d where
    d: "zpad (depth n) 1 = Inr d" "length d = 1" "toBigInt d = depth n" by auto
  from ib zpad_field [of "index n" 4] obtain i where
    i: "zpad (index n) 4 = Inr i" "length i = 4" "toBigInt i = index n" by auto
  let ?p = "xpub_mainnet @ d @ accountFingerprint n @ i @ chainCode n @ publicKey n"
  note f = payload_fields [OF prefixes_distinct(4) d(2) len(1) i(2) len(2) len(3)]
  from d(2) obtain d0 where d0: "d = [d0]" by (auto simp: length_Suc_conv)
  with d(3) have ud: "unat (hd d) = depth n" by (simp add: toBigInt_Cons)
  have key: "HDNodeVoidWallet_extendedKey c n = Inr (encodeBase58Check c ?p)"
    using dp d(1) i(1) by (simp add: HDNodeVoidWallet_extendedKey_def)
  have hd: "hd ?p \<noteq> 0"
    using prefixes_distinct(6) by (simp add: xpub_mainnet_def)
  have "fromExtendedKey c (encodeBase58Check c ?p) =
      Inr (VoidNode (new_HDNodeVoidWallet c (address n) (publicKey n) (accountFingerprint n)
             (chainCode n) None (index n) (depth n)))"
    by (subst fromExtendedKey_encodeBase58Check [OF sha f(9) hd])
       (simp add: f ud i(3) addr)
  with key show ?thesis
    by (simp add: new_HDNodeVoidWallet_def)
qed

text \<open>
  C1. For every HD node, full or neutered, that is well formed and has a depth below 256:
  \<open>extendedKey\<close> returns a string, and \<open>fromExtendedKey\<close> decodes this string to a node of
  the same kind with the same address, chain code, depth and index.
\<close>

theorem extendedKey_roundtrip:
  assumes "sha256_size c" and "wellFormed c node" and "nodeDepth node < 256"
  shows "\<exists>key decoded. extendedKey c node = Inr key \<and> fromExtendedKey c key = Inr decoded \<and>
           isFull decoded = isFull node \<and>
           nodeAddress decoded = nodeAddress node \<and> nodeChainCode decoded = nodeChainCode node \<and>
           nodeDepth decoded = nodeDepth node \<and> nodeIndex decoded = nodeIndex node"
proof (cases node)
  case (FullNode n)
  with assms extendedKey_roundtrip_full [of c n] obtain key n' where
    "HDNodeWallet_extendedKey c n = Inr key" "fromExtendedKey c key = Inr (FullNode n')"
    "address n' = address n" "chainCode n' = chainCode n" "depth n' = depth n" "index n' = index n"
    by (auto simp: nodeDepth_def)
  with FullNode show ?thesis
    by (simp add: extendedKey_def isFull_def nodeAddress_def nodeChainCode_def nodeDepth_def
          nodeIndex_def)
next
  case (VoidNode n)
  with assms extendedKey_roundtrip_void [of c n] obtain key n' where
    "HDNodeVoidWallet_extendedKey c n = Inr key" "fromExtendedKey c key = Inr (VoidNode n')"
    "address n' = address n" "chainCode n' = chainCode n" "depth n' = depth n" "index n' = index n"
    by (auto simp: nodeDepth_def)
  with VoidNode show ?thesis
    by (simp add: extendedKey_def isFull_def nodeAddress_def nodeChainCode_def nodeDepth_def
          nodeIndex_def)
qed

lemma sha256_size_exampleExt: "sha256_size exampleExt"
  by (auto simp: sha256_size_def exampleExt_def)

lemma wellFormed_exampleNode: "wellFormed exampleExt (FullNode exampleNode)"
  using constructed_exampleNode
  by (simp add: wellFormed_def) (simp add: exampleNode_def be32_7)

lemma wellFormed_neuter_exampleNode: "wellFormed exampleExt (VoidNode (neuter exampleExt exampleNode))"
proof -
  have "byteSlice (2 # be32 7) 13 33 = replicate 19 0 @ [7]"
    by (simp add: be32_7 byteSlice_def)
  then have "computeAddress exampleExt (publicKey exampleNode) = Inr (address exampleNode)"
    by (simp add: exampleNode_def replicate_19)
  then show ?thesis
    by (simp add: wellFormed_def neuter_def new_HDNodeVoidWallet_def)
       (auto simp: exampleNode_def be32_7 exampleExt_def byteSlice_def)
qed

theorem extendedKey_roundtrip_witness:
  "sha256_size exampleExt \<and> wellFormed exampleExt (FullNode exampleNode) \<and>
   nodeDepth (FullNode exampleNode) < 256 \<and>
   (\<exists>key decoded. extendedKey exampleExt (FullNode exampleNode) = Inr key \<and>
      fromExtendedKey exampleExt key = Inr decoded \<and> isFull decoded \<and>
      nodeAddress decoded = ''0x0000000000000000000000000000000000000007'' \<and>
      nodeChainCode decoded = replicate 32 5 \<and> nodeDepth decoded = 5 \<and> nodeIndex decoded = 0) \<and>
   wellFormed exampleExt (VoidNode (neuter exampleExt exampleNode)) \<and>
   (\<exists>key decoded. extendedKey exampleExt (VoidNode (neuter exampleExt exampleNode)) = Inr key \<and>
      fromExtendedKey exampleExt key = Inr decoded \<and> \<not> isFull decoded \<and>
      nodeAddress decoded = ''0x0000000000000000000000000000000000000007'' \<and>
      nodeChainCode decoded = replicate 32 5 \<and> nodeDepth decoded = 5 \<and> nodeIndex decoded = 0)"
proof -
  have d: "nodeDepth (FullNode exampleNode) < 256"
    "nodeDepth (VoidNode (neuter exampleExt exampleNode)) < 256"
    by (simp_all add: nodeDepth_def exampleNode_def)
  have fields:
    "isFull (FullNode exampleNode)" "\<not> isFull (VoidNode (neuter exampleExt exampleNode))"
    "nodeAddress (FullNode exampleNode) = ''0x0000000000000000000000000000000000000007''"
    "nodeAddress (VoidNode (neuter exampleExt exampleNode)) = ''0x0000000000000000000000000000000000000007''"
    "nodeChainCode (FullNode exampleNode) = replicate 32 5"
    "nodeChainCode (VoidNode (neuter exampleExt exampleNode)) = replicate 32 5"
    "nodeDepth (FullNode exampleNode) = 5" "nodeDepth (VoidNode (neuter exampleExt exampleNode)) = 5"
    "nodeIndex (FullNode exampleNode) = 0" "nodeIndex (VoidNode (neuter exampleExt exampleNode)) = 0"
    by (simp_all add: isFull_def nodeAddress_def nodeChainCode_def nodeDepth_def nodeIndex_def)
       (simp_all add: exampleNode_def)
  from extendedKey_roundtrip [OF sha256_size_exampleExt wellFormed_exampleNode d(1)]
    extendedKey_roundtrip [OF sha256_size_exampleExt wellFormed_neuter_exampleNode d(2)]
  show ?thesis
    using sha256_size_exampleExt wellFormed_exampleNode wellFormed_neuter_exampleNode d(1)
    by (simp add: fields)
qed


section \<open>Well-formed nodes: results\<close>

text \<open>
  Every node that a factory function or a derivation returns is well formed, when the
  collaborators return values of the usual sizes.
\<close>

lemma new_HDNodeWallet_fingerprint:
  "new_HDNodeWallet c k afp cc pth idx dpth mn = Inr n \<Longrightarrow>
     \<exists>P. signingKey_compressedPublicKey c k = Inr P \<and> publicKey n = P \<and>
         fingerprint n = byteSlice (ripemd160 c (sha256 c P)) 0 4"
  by (auto simp: new_HDNodeWallet_def split: sum.splits)

lemma fingerprint_size: "sizes_contract c \<Longrightarrow> length (byteSlice (ripemd160 c data) 0 4) = 4"
  by (simp add: sizes_contract_def byteSlice_def)

lemma hmac_halves:
  "sizes_contract c \<Longrightarrow> length (take 32 (computeHmac_sha512 c key data)) = 32 \<and>
     length (drop 32 (computeHmac_sha512 c key data)) = 32"
  by (simp add: sizes_contract_def)

lemma ser_I_sizes:
  "sizes_contract c \<Longrightarrow> ser_I c idx cc pub priv = Inr (IR, IL) \<Longrightarrow> length IR = 32 \<and> length IL = 32"
  using hmac_halves [of c]
  by (auto simp: ser_I_def Let_def split: if_splits option.splits)

lemma childKey_size: "childKey c IL k = Inr ki \<Longrightarrow> length ki = 32"
  by (auto simp: childKey_def dest: toBeHex_Inr split: if_splits)

lemma wellFormed_fromSeed:
  assumes "sizes_contract c" and "fromSeed c seed mn = Inr n"
  shows "wellFormed c (FullNode n)"
proof -
  let ?I = "computeHmac_sha512 c (masterSecret c) seed"
  from assms(2) have n: "new_HDNodeWallet c (byteSlice ?I 0 32) [0, 0, 0, 0] (drop 32 ?I) (Some ''m'') 0 0 mn = Inr n"
    by (simp add: fromSeed_def Let_def split: if_splits)
  from new_HDNodeWallet_Inr [OF n] new_HDNodeWallet_fingerprint [OF n]
    fingerprint_size [OF assms(1)] hmac_halves [OF assms(1), of "masterSecret c" seed]
  show ?thesis
    by (auto simp: wellFormed_def byteSlice_def)
qed

lemma wellFormed_deriveChild:
  assumes "sizes_contract c" and "wellFormed c (FullNode n)"
    and "HDNodeWallet_deriveChild c n idx = Inr f"
  shows "wellFormed c (FullNode f)"
proof -
  from assms(3) obtain pth newDepth IR IL ki where
    s: "ser_I c idx (chainCode n) (publicKey n) (Some (privateKey n)) = Inr (IR, IL)" and
    k: "childKey c IL (privateKey n) = Inr ki" and
    f: "new_HDNodeWallet c ki (if depth n = 3 then fingerprint n else accountFingerprint n) IR pth idx
          newDepth (mnemonic n) = Inr f" and
    i: "idx \<le> 0xffffffff"
    by (auto simp: HDNodeWallet_deriveChild_def Let_def split: if_splits prod.splits sum.splits)
  from new_HDNodeWallet_Inr [OF f] new_HDNodeWallet_fingerprint [OF f]
    fingerprint_size [OF assms(1)] ser_I_sizes [OF assms(1) s] childKey_size [OF k] i assms(2)
  show ?thesis
    by (auto simp: wellFormed_def)
qed

lemma wellFormed_neuter:
  assumes "sizes_contract c" and "curve_contract c" and "wellFormed c (FullNode n)"
  shows "wellFormed c (VoidNode (neuter c n))"
proof -
  from assms(3) obtain U where
    U: "signingKey_publicKey c (privateKey n) = Inr U" "computeAddress c U = Inr (address n)"
    and P: "signingKey_compressedPublicKey c (privateKey n) = Inr (publicKey n)"
    by (auto simp: wellFormed_def constructed_def split: sum.splits)
  from assms(2) U(1) P have "computeAddress c U = computeAddress c (publicKey n)"
    unfolding curve_contract_def by blast
  with U(2) have a: "computeAddress c (publicKey n) = Inr (address n)" by simp
  from assms(1) P have l: "length (publicKey n) = 33"
    by (auto simp: sizes_contract_def)
  from assms(3) a l fingerprint_size [OF assms(1)] show ?thesis
    by (simp add: wellFormed_def neuter_def new_HDNodeVoidWallet_def)
qed

lemma wellFormed_void_deriveChild:
  assumes "sizes_contract c" and "wellFormed c (VoidNode v)"
    and "HDNodeVoidWallet_deriveChild c v idx = Inr v'"
  shows "wellFormed c (VoidNode v')"
proof -
  from assms(3) obtain pth IR IL Ki addr where
    s: "ser_I c idx (chainCode v) (publicKey v) None = Inr (IR, IL)" and
    add: "addPoints c IL (publicKey v) = Inr Ki" and
    a: "computeAddress c Ki = Inr addr" and
    v': "v' = new_HDNodeVoidWallet c addr Ki (fingerprint v) IR pth idx (depth v + 1)" and
    i: "idx \<le> 0xffffffff"
    by (auto simp: HDNodeVoidWallet_deriveChild_def Let_def split: if_splits prod.splits sum.splits)
  from assms(1) add have "length Ki = 33"
    by (auto simp: sizes_contract_def)
  with ser_I_sizes [OF assms(1) s] fingerprint_size [OF assms(1)] a i assms(2) show ?thesis
    by (simp add: wellFormed_def v' new_HDNodeVoidWallet_def)
qed

lemma wellFormed_fromExtendedKey:
  assumes "sizes_contract c" and "fromExtendedKey c k = Inr node"
  shows "wellFormed c node"
proof -
  from assms(1) have sha: "sha256_size c" by (simp add: sizes_contract_def)
  from fromExtendedKey_accepts [OF sha assms(2)] obtain v where
    v: "decodeBase58 k = Inr v" and len: "length (toBeArray v) = 82" by blast
  let ?bs = "toBeArray v"
  have idx: "toBigInt (byteSlice ?bs 9 13) \<le> 0xffffffff"
    using toBigInt_lt [of "byteSlice ?bs 9 13"] len by (simp add: byteSlice_def)
  have l: "length (byteSlice ?bs 5 9) = 4" "length (byteSlice ?bs 13 45) = 32"
    "length (byteSlice ?bs 45 78) = 33" "length (byteSlice (byteSlice ?bs 45 78) 1 33) = 32"
    using len by (simp_all add: byteSlice_def)
  show ?thesis
  proof (cases node)
    case (FullNode n)
    with assms(2) v len obtain n0 where
      n: "new_HDNodeWallet c (byteSlice (byteSlice ?bs 45 78) 1 33) (byteSlice ?bs 5 9)
            (byteSlice ?bs 13 45) None (toBigInt (byteSlice ?bs 9 13)) (unat (?bs ! 4)) None = Inr n"
      by (auto simp: fromExtendedKey_def Let_def split: if_splits sum.splits)
    from new_HDNodeWallet_Inr [OF n] new_HDNodeWallet_fingerprint [OF n]
      fingerprint_size [OF assms(1)] l idx FullNode
    show ?thesis
      by (auto simp: wellFormed_def)
  next
    case (VoidNode n)
    with assms(2) v len obtain addr where
      a: "computeAddress c (byteSlice ?bs 45 78) = Inr addr" and
      n: "n = new_HDNodeVoidWallet c addr (byteSlice ?bs 45 78) (byteSlice ?bs 5 9)
            (byteSlice ?bs 13 45) None (toBigInt (byteSlice ?bs 9 13)) (unat (?bs ! 4))"
      by (auto simp: fromExtendedKey_def Let_def split: if_splits sum.splits)
    with fingerprint_size [OF assms(1)] l idx VoidNode show ?thesis
      by (simp add: wellFormed_def new_HDNodeVoidWallet_def)
  qed
qed

section \<open>Zone-aware address search: results\<close>

lemma digit_char_is_digit: "d < 10 \<Longrightarrow> is_digit (digit_char d) \<and> of_char (digit_char d) - 48 = d"
proof -
  assume "d < 10"
  then have "d = 0 \<or> d = 1 \<or> d = 2 \<or> d = 3 \<or> d = 4 \<or> d = 5 \<or> d = 6 \<or> d = 7 \<or> d = 8 \<or> d = 9"
    by arith
  then show ?thesis
    by (elim disjE) (simp_all add: digit_char_def is_digit_def)
qed

lemma digits_string_of_nat: "digits (string_of_nat n)"
proof (induction n rule: string_of_nat.induct)
  case (1 n)
  show ?case
  proof (cases "n < 10")
    case True
    then show ?thesis
      by (subst string_of_nat.simps) (simp add: digits_def digit_char_is_digit)
  next
    case False
    with 1 have "digits (string_of_nat (n div 10))" by simp
    moreover have "is_digit (digit_char (n mod 10))" by (simp add: digit_char_is_digit)
    ultimately show ?thesis using False
      by (subst string_of_nat.simps) (simp add: digits_def)
  qed
qed

lemma decimal_snoc: "decimal (s @ [ch]) = decimal s * 10 + (of_char ch - 48)"
  by (simp add: decimal_def)

lemma decimal_string_of_nat: "decimal (string_of_nat n) = n"
proof (induction n rule: string_of_nat.induct)
  case (1 n)
  show ?case
  proof (cases "n < 10")
    case True
    then show ?thesis
      by (subst string_of_nat.simps) (simp add: decimal_def digit_char_is_digit)
  next
    case False
    with 1 have "decimal (string_of_nat (n div 10)) = n div 10" by simp
    with False show ?thesis
      by (subst string_of_nat.simps) (simp add: decimal_snoc digit_char_is_digit)
  qed
qed

lemma split_slash_no_slash: "CHR ''/'' \<notin> set s \<Longrightarrow> split_slash s = [s]"
  by (induction s) auto

lemma digits_no_slash: "digits s \<Longrightarrow> CHR ''/'' \<notin> set s"
  by (auto simp: digits_def list_all_iff is_digit_def)

lemma digits_not_m: "digits s \<Longrightarrow> s \<noteq> ''m''"
  by (auto simp: digits_def is_digit_def)

lemma derivePath_string_of_nat:
  "derivePath dc depthOf node (string_of_nat a) =
     (if depthOf node = 0 then Inl InvalidPath else dc node a)"
proof -
  have d: "digits (string_of_nat a)" by (rule digits_string_of_nat)
  then have "split_slash (string_of_nat a) = [string_of_nat a]"
    by (simp add: split_slash_no_slash digits_no_slash)
  with d show ?thesis
    by (simp add: derivePath_def digits_not_m decimal_string_of_nat split: sum.splits)
qed

lemma HDNodeWallet_derivePath_beyond:
  "a > 0xffffffff \<Longrightarrow> \<exists>e. HDNodeWallet_derivePath c this (string_of_nat a) = Inl e"
  by (simp add: HDNodeWallet_derivePath_def derivePath_string_of_nat HDNodeWallet_deriveChild_def)

lemma deriveAddress_loop_returns:
  "\<exists>r. deriveAddress_loop c this shard a z = Some r"
proof (induction k \<equiv> "4294967296 - a" arbitrary: a z)
  case 0
  then have "a > 0xffffffff" by simp
  from HDNodeWallet_derivePath_beyond [OF this] obtain e
    where "HDNodeWallet_derivePath c this (string_of_nat a) = Inl e" by blast
  then show ?case
    by (subst deriveAddress_loop.simps) simp
next
  case (Suc k)
  then have k: "k = 4294967296 - (a + 1)" by simp
  show ?case
  proof (cases "HDNodeWallet_derivePath c this (string_of_nat a)")
    case (Inl e)
    then show ?thesis by (subst deriveAddress_loop.simps) simp
  next
    case (Inr newWallet)
    let ?z = "if zoneMatch c shard newWallet then z - 1 else z"
    from Suc.hyps(1) [OF k, of ?z] obtain r
      where "deriveAddress_loop c this shard (a + 1) ?z = Some r" by blast
    with Inr show ?thesis
      by (subst deriveAddress_loop.simps) (simp add: Let_def)
  qed
qed

lemma deriveAddress_loop_no_match:
  assumes "\<forall>a \<le> 0xffffffff. \<not> matchAt c this shard a" and "0 < z"
  shows "\<exists>e. deriveAddress_loop c this shard a z = Some (Inl e)"
proof (induction k \<equiv> "4294967296 - a" arbitrary: a)
  case 0
  then have "a > 0xffffffff" by simp
  from HDNodeWallet_derivePath_beyond [OF this] obtain e
    where "HDNodeWallet_derivePath c this (string_of_nat a) = Inl e" by blast
  then show ?case
    by (subst deriveAddress_loop.simps) simp
next
  case (Suc k)
  then have k: "k = 4294967296 - (a + 1)" and a: "a \<le> 0xffffffff" by simp_all
  show ?case
  proof (cases "HDNodeWallet_derivePath c this (string_of_nat a)")
    case (Inl e)
    then show ?thesis by (subst deriveAddress_loop.simps) simp
  next
    case (Inr newWallet)
    with assms(1) a have "\<not> zoneMatch c shard newWallet"
      by (auto simp: matchAt_def)
    with Inr assms(2) Suc.hyps(1) [OF k] show ?thesis
      by (subst deriveAddress_loop.simps) (simp add: Let_def)
  qed
qed

text \<open>
  C7. \<open>deriveAddress\<close> returns for every input: the loop has no bound of its own, but
  \<open>derivePath\<close> hands the address index to \<open>deriveChild\<close>, which rejects an index above
  \<open>0xffffffff\<close>, so the search makes at most \<open>2^32 + 1\<close> attempts. When the requested zone
  has no matching derived address among the indices up to \<open>0xffffffff\<close>, the search ends
  with an error.
\<close>

theorem deriveAddress_terminates:
  "(\<exists>r. deriveAddress c this idx zone = Some r) \<and>
   (zone = Some z \<and> z \<noteq> [] \<and> requestedShard c z = Some shard \<and>
    (\<forall>a \<le> 0xffffffff. \<not> matchAt c this shard a) \<longrightarrow>
      (\<exists>e. deriveAddress c this idx zone = Some (Inl e)))"
proof
  show "\<exists>r. deriveAddress c this idx zone = Some r"
    using deriveAddress_loop_returns
    by (auto simp: deriveAddress_def split: option.splits list.splits)
next
  show "zone = Some z \<and> z \<noteq> [] \<and> requestedShard c z = Some shard \<and>
    (\<forall>a \<le> 0xffffffff. \<not> matchAt c this shard a) \<longrightarrow>
      (\<exists>e. deriveAddress c this idx zone = Some (Inl e))"
  proof
    assume h: "zone = Some z \<and> z \<noteq> [] \<and> requestedShard c z = Some shard \<and>
      (\<forall>a \<le> 0xffffffff. \<not> matchAt c this shard a)"
    then obtain e where "deriveAddress_loop c this shard 0 (int idx + 1) = Some (Inl e)"
      using deriveAddress_loop_no_match [of c this shard "int idx + 1" 0] by auto
    with h show "\<exists>e. deriveAddress c this idx zone = Some (Inl e)"
      by (cases z) (auto simp: deriveAddress_def split: option.splits)
  qed
qed

lemma toLowerCase_examples:
  "toLowerCase ''Cyprus One'' = ''cyprus one''" "toLowerCase ''cyprus1'' = ''cyprus1''"
  "toLowerCase ''0x00'' = ''0x00''" "toLowerCase ''Paxos One'' = ''paxos one''"
  "toLowerCase ''paxos1'' = ''paxos1''" "toLowerCase ''Cyprus1'' = ''cyprus1''"
  by code_simp+

lemma requestedShard_examples:
  "requestedShard exampleExt ''paxos1'' = Some (exampleZoneData ! 1)"
  "requestedShard exampleExt ''Cyprus1'' = Some (exampleZoneData ! 0)"
  by (simp_all add: requestedShard_def exampleExt_def ShardData_def exampleZoneData_def
        toLowerCase_examples)

lemma no_match_example: "\<forall>a \<le> 0xffffffff. \<not> matchAt exampleExt exampleNode (exampleZoneData ! 1) a"
  by (auto simp: matchAt_def zoneMatch_def exampleExt_def exampleZoneData_def split: sum.splits)

theorem deriveAddress_terminates_witness:
  "requestedShard exampleExt ''paxos1'' = Some (exampleZoneData ! 1) \<and>
   \<not> (\<exists>a \<le> 0xffffffff. matchAt exampleExt exampleNode (exampleZoneData ! 1) a) \<and>
   (\<exists>e. deriveAddress exampleExt exampleNode 0 (Some ''paxos1'') = Some (Inl e)) \<and>
   (\<exists>r. deriveAddress exampleExt exampleNode 0 (Some ''Cyprus1'') = Some r)"
proof -
  from deriveAddress_terminates [of exampleExt exampleNode 0 "Some ''paxos1''" "''paxos1''"
      "exampleZoneData ! 1"] requestedShard_examples(1) no_match_example
  have "\<exists>e. deriveAddress exampleExt exampleNode 0 (Some ''paxos1'') = Some (Inl e)"
    by simp
  moreover from deriveAddress_terminates [of exampleExt exampleNode 0 "Some ''Cyprus1''"]
  have "\<exists>r. deriveAddress exampleExt exampleNode 0 (Some ''Cyprus1'') = Some r"
    by blast
  ultimately show ?thesis
    using requestedShard_examples(1) no_match_example by blast
qed


section \<open>The Quai HD wallet: results\<close>

text \<open>
  C6. Adding an address at an address index that some stored entry already has, whatever
  the account or zone of that entry, is rejected with the \<open>already exists\<close> error and
  leaves the wallet, and so its address map, unchanged.
\<close>

theorem addAddress_used_index_rejected:
  "(\<exists>entry \<in> set (addresses w). ai_index (snd entry) = addressIndex) \<Longrightarrow>
     addAddress c d w account addressIndex = (Inl (AddressExists addressIndex), w)"
  by (auto simp: addAddress_def list_ex_iff)


theorem addAddress_used_index_rejected_witness:
  "(\<exists>entry \<in> set (addresses exampleWallet). ai_index (snd entry) = 5) \<and>
   (\<forall>c d. addAddress c d exampleWallet 1 5 = (Inl (AddressExists 5), exampleWallet))"
proof -
  have used: "\<exists>entry \<in> set (addresses exampleWallet). ai_index (snd entry) = 5"
    by (simp add: exampleWallet_def exampleEntry_def)
  from addAddress_used_index_rejected [OF used] used show ?thesis
    by blast
qed

section \<open>Deserialization: results\<close>

lemma addAddress_root: "root (snd (addAddress c d w account idx)) = root w"
  by (auto simp: addAddress_def createAndStoreAddressInfo_def Let_def split: sum.splits option.splits)

lemma addAddress_Inr:
  assumes "addAddress c d w account idx = (Inr info, w')"
  shows "\<exists>addressNode. deriveAddressNode d (root w) account idx = Inr addressNode \<and>
           ai_address info = address addressNode \<and> ai_pubKey info = publicKey addressNode \<and>
           getZoneForAddress c (address addressNode) = Some (ai_zone info) \<and>
           ai_account info = account \<and> root w' = root w"
  using assms
  by (auto simp: addAddress_def createAndStoreAddressInfo_def Let_def
           split: if_splits sum.splits option.splits)

lemma importSerializedAddresses_root:
  "root (snd (importSerializedAddresses c d w es)) = root w"
proof (induction es arbitrary: w)
  case Nil
  then show ?case by simp
next
  case (Cons e es)
  obtain res w' where a: "addAddress c d w (ai_account e) (ai_index e) = (res, w')"
    by (cases "addAddress c d w (ai_account e) (ai_index e)")
  with addAddress_root [of c d w "ai_account e" "ai_index e"] have r: "root w' = root w" by simp
  show ?case
    using a r Cons.IH [of w'] by (cases res) simp_all
qed

lemma importSerializedAddresses_rederived:
  assumes "importSerializedAddresses c d w es = (Inr u, w')"
  shows "list_all (rederived c d (root w)) es"
  using assms
proof (induction es arbitrary: w)
  case Nil
  then show ?case by simp
next
  case (Cons e es)
  obtain res w1 where a: "addAddress c d w (ai_account e) (ai_index e) = (res, w1)"
    by (cases "addAddress c d w (ai_account e) (ai_index e)")
  with Cons.prems obtain info where i: "res = Inr info"
    by (cases res) simp_all
  from Cons.prems a i have eq: "ai_address e = ai_address info" "ai_pubKey e = ai_pubKey info"
    "ai_zone e = ai_zone info"
    and rest: "importSerializedAddresses c d w1 es = (Inr u, w')"
    by (simp_all split: if_splits)
  from addAddress_Inr [OF a [unfolded i]] eq have "rederived c d (root w) e" and "root w1 = root w"
    by (auto simp: rederived_def)
  with Cons.IH [OF rest] show ?case by simp
qed

lemma importSerializedAddresses_append:
  "importSerializedAddresses c d w (xs @ ys) =
     (case importSerializedAddresses c d w xs of
        (Inl e, w') \<Rightarrow> (Inl e, w')
      | (Inr u, w') \<Rightarrow> importSerializedAddresses c d w' ys)"
proof (induction xs arbitrary: w)
  case Nil
  then show ?case by simp
next
  case (Cons x xs)
  show ?case
    by (simp add: Cons.IH split: prod.splits sum.splits)
qed

lemma importSerializedAddresses_mismatch:
  assumes "addAddress c d w (ai_account e) (ai_index e) = (Inr info, w1)"
    and "ai_address e \<noteq> ai_address info \<or> ai_pubKey e \<noteq> ai_pubKey info \<or> ai_zone e \<noteq> ai_zone info"
  shows "\<exists>err. fst (importSerializedAddresses c d w (e # es)) = Inl err \<and> mismatchError err"
  using assms by (auto simp: mismatchError_def)

text \<open>
  C5, as amended. \<open>deserialize\<close> re-derives every stored address from the root built from
  the serialized phrase and path. It returns a wallet only when every stored entry matches
  its re-derivation in address, public key and zone; when some entry does not, it fails and
  returns no wallet. The failure is one of the three mismatch errors when the first entry
  that fails was derived and stored by \<open>_addAddress\<close> and then differs; otherwise it is the
  error of \<open>_addAddress\<close> (index already used, no zone, not a Quai address) or of the
  derivation.
\<close>

theorem deserialize_cross_validation:
  "(deserialize c d s = Inr wallet \<longrightarrow>
      deserialize_root d s = Inr (root wallet) \<and>
      list_all (rederived c d (root wallet)) (s_addresses s)) \<and>
   (deserialize_root d s = Inr r \<and> \<not> list_all (rederived c d r) (s_addresses s) \<longrightarrow>
      (\<exists>err. deserialize c d s = Inl err)) \<and>
   (deserialize_root d s = Inr r \<and> s_addresses s = es1 @ e # es2 \<and>
    importSerializedAddresses c d \<lparr>root = r, addresses = []\<rparr> es1 = (Inr (), w1) \<and>
    addAddress c d w1 (ai_account e) (ai_index e) = (Inr info, w2) \<and>
    (ai_address e \<noteq> ai_address info \<or> ai_pubKey e \<noteq> ai_pubKey info \<or>
     ai_zone e \<noteq> ai_zone info) \<longrightarrow>
      (\<exists>err. deserialize c d s = Inl err \<and> mismatchError err))"
proof -
  have p1: "deserialize c d s = Inr wallet \<longrightarrow>
      deserialize_root d s = Inr (root wallet) \<and>
      list_all (rederived c d (root wallet)) (s_addresses s)"
  proof
    assume ok: "deserialize c d s = Inr wallet"
    then obtain r0 where r0: "deserialize_root d s = Inr r0"
      by (auto simp: deserialize_def split: sum.splits)
    with ok obtain u where
      imp: "importSerializedAddresses c d \<lparr>root = r0, addresses = []\<rparr> (s_addresses s) = (Inr u, wallet)"
      by (auto simp: deserialize_def split: sum.splits prod.splits)
    from importSerializedAddresses_root [of c d "\<lparr>root = r0, addresses = []\<rparr>" "s_addresses s"] imp
    have rw: "root wallet = r0" by simp
    from importSerializedAddresses_rederived [OF imp] rw r0
    show "deserialize_root d s = Inr (root wallet) \<and>
        list_all (rederived c d (root wallet)) (s_addresses s)"
      by simp
  qed
  have p2: "deserialize_root d s = Inr r \<and> \<not> list_all (rederived c d r) (s_addresses s) \<longrightarrow>
      (\<exists>err. deserialize c d s = Inl err)"
  proof
    assume a: "deserialize_root d s = Inr r \<and> \<not> list_all (rederived c d r) (s_addresses s)"
    obtain res w' where
      imp: "importSerializedAddresses c d \<lparr>root = r, addresses = []\<rparr> (s_addresses s) = (res, w')"
      by (cases "importSerializedAddresses c d \<lparr>root = r, addresses = []\<rparr> (s_addresses s)")
    show "\<exists>err. deserialize c d s = Inl err"
    proof (cases res)
      case (Inl err)
      with a imp show ?thesis by (simp add: deserialize_def)
    next
      case (Inr u)
      with imp importSerializedAddresses_rederived
        [of c d "\<lparr>root = r, addresses = []\<rparr>" "s_addresses s" u w']
      have "list_all (rederived c d r) (s_addresses s)" by simp
      with a show ?thesis by simp
    qed
  qed
  have p3: "deserialize_root d s = Inr r \<and> s_addresses s = es1 @ e # es2 \<and>
      importSerializedAddresses c d \<lparr>root = r, addresses = []\<rparr> es1 = (Inr (), w1) \<and>
      addAddress c d w1 (ai_account e) (ai_index e) = (Inr info, w2) \<and>
      (ai_address e \<noteq> ai_address info \<or> ai_pubKey e \<noteq> ai_pubKey info \<or>
       ai_zone e \<noteq> ai_zone info) \<longrightarrow>
      (\<exists>err. deserialize c d s = Inl err \<and> mismatchError err)"
  proof
    assume a: "deserialize_root d s = Inr r \<and> s_addresses s = es1 @ e # es2 \<and>
      importSerializedAddresses c d \<lparr>root = r, addresses = []\<rparr> es1 = (Inr (), w1) \<and>
      addAddress c d w1 (ai_account e) (ai_index e) = (Inr info, w2) \<and>
      (ai_address e \<noteq> ai_address info \<or> ai_pubKey e \<noteq> ai_pubKey info \<or>
       ai_zone e \<noteq> ai_zone info)"
    then obtain err where
      e: "fst (importSerializedAddresses c d w1 (e # es2)) = Inl err" "mismatchError err"
      using importSerializedAddresses_mismatch [of c d w1 e info w2 es2] by blast
    from a have "importSerializedAddresses c d \<lparr>root = r, addresses = []\<rparr> (s_addresses s) =
        importSerializedAddresses c d w1 (e # es2)"
      by (simp add: importSerializedAddresses_append)
    with e(1) a have "deserialize c d s = Inl err"
      by (auto simp: deserialize_def split: prod.splits sum.splits)
    with e(2) show "\<exists>err. deserialize c d s = Inl err \<and> mismatchError err" by blast
  qed
  from p1 p2 p3 show ?thesis by blast
qed

lemma last_ser32: "last (ser32 idx) = of_nat (idx mod 256)"
  by (simp add: ser32_def)

lemma ser32_nonempty [simp]: "ser32 idx \<noteq> []"
  by (simp add: ser32_def)

lemma toBigInt_single: "toBigInt [b] = unat b"
  by (simp add: toBigInt_Cons)

lemma ser_I_exampleExt:
  "ser_I exampleExt idx cc pub (Some k) = Inr (IR, IL) \<Longrightarrow> toBigInt IL = idx mod 256"
  by (auto simp: ser_I_def exampleExt_def Let_def last_ser32 toBigInt_append toBigInt_single
           unat_byte_of_nat split: if_splits)

lemma exampleEntry_fields:
  "ai_account exampleEntry = 0" "ai_index exampleEntry = 5"
  "ai_address exampleEntry = ''0x000000000000000000000000000000000000000c''"
  by (simp_all add: exampleEntry_def)

lemma deriveChild_example_key:
  assumes "idx \<le> 0xffffffff"
  shows "\<exists>f. HDNodeWallet_deriveChild exampleExt n idx = Inr f \<and> index f = idx \<and>
           toBigInt (privateKey f) = (idx mod 256 + toBigInt (privateKey n)) mod exampleN \<and>
           constructed exampleExt f"
proof -
  from HDNodeWallet_deriveChild_exampleExt [OF assms] obtain f
    where f: "HDNodeWallet_deriveChild exampleExt n idx = Inr f" by blast
  from HDNodeWallet_deriveChild_Inr [OF f] obtain IR IL where
    s: "ser_I exampleExt idx (chainCode n) (publicKey n) (Some (privateKey n)) = Inr (IR, IL)" and
    k: "childKey exampleExt IL (privateKey n) = Inr (privateKey f)" and
    i: "index f = idx" and c: "constructed exampleExt f"
    by auto
  from k have "toBigInt (privateKey f) = (toBigInt IL + toBigInt (privateKey n)) mod exampleN"
    by (auto simp: childKey_def dest: toBeHex_Inr split: if_splits)
  with ser_I_exampleExt [OF s] f i c show ?thesis by simp
qed

lemma constructed_exampleExt:
  assumes "constructed exampleExt f"
  shows "publicKey f = 2 # be32 (toBigInt (privateKey f) mod exampleN) \<and>
         address f = ''0x'' @ hexlify (byteSlice (be32 (toBigInt (privateKey f) mod exampleN)) 12 32)"
proof -
  have "length (be32 (toBigInt (privateKey f) mod exampleN)) = 32"
    by (rule length_be32) (rule mod_exampleN_lt)
  then have "byteSlice (4 # be32 (toBigInt (privateKey f) mod exampleN) @ replicate 32 0) 13 33 =
      byteSlice (be32 (toBigInt (privateKey f) mod exampleN)) 12 32"
    by (simp add: byteSlice_def)
  with assms show ?thesis
    by (simp add: constructed_def)
qed

lemma toBeArray_12: "toBeArray 12 = [12]"
  by (simp add: toBeArray.simps)

lemma hexlify_12 [simp]: "hexlify (12 # bs) = ''0c'' @ hexlify bs"
  by (simp add: hexlify_def)

lemma deriveAddressNode_example:
  "\<exists>node. deriveAddressNode exampleDeps exampleRoot 0 5 = Inr node \<and> index node = 5 \<and>
     publicKey node = ai_pubKey exampleEntry \<and> address node = ai_address exampleEntry"
proof -
  have k0: "toBigInt (privateKey exampleRoot) = 7"
    by (simp add: exampleRoot_def exampleNode_def)
  obtain n1 where n1: "HDNodeWallet_deriveChild exampleExt exampleRoot (0 + HARDENED_OFFSET) = Inr n1"
    and k1: "toBigInt (privateKey n1) = 7"
    using deriveChild_example_key [of "0 + HARDENED_OFFSET" exampleRoot]
    by (auto simp: HARDENED_OFFSET_def k0 exampleN_def)
  obtain n2 where n2: "HDNodeWallet_deriveChild exampleExt n1 0 = Inr n2"
    and k2: "toBigInt (privateKey n2) = 7"
    using deriveChild_example_key [of 0 n1] by (auto simp: k1 exampleN_def)
  obtain n3 where n3: "HDNodeWallet_deriveChild exampleExt n2 5 = Inr n3"
    and k3: "toBigInt (privateKey n3) = 12" and i3: "index n3 = 5"
    and c3: "constructed exampleExt n3"
    using deriveChild_example_key [of 5 n2] by (auto simp: k2 exampleN_def)
  have "byteSlice (be32 12) 12 32 = replicate 19 0 @ [12]"
    by (simp add: be32_def toBeArray_12 byteSlice_def)
  with constructed_exampleExt [OF c3] k3
  have "publicKey n3 = 2 # be32 12"
    and "address n3 = ''0x000000000000000000000000000000000000000c''"
    by (simp_all add: exampleN_def replicate_19)
  with n1 n2 n3 i3 show ?thesis
    by (simp add: deriveAddressNode_def exampleDeps_def exampleEntry_def)
qed

lemma addAddress_example:
  "addAddress exampleExt exampleDeps \<lparr>root = exampleRoot, addresses = []\<rparr> 0 5 =
     (Inr exampleEntry, exampleWallet)"
proof -
  from deriveAddressNode_example obtain node where
    n: "deriveAddressNode exampleDeps exampleRoot 0 5 = Inr node" "index node = 5"
      "publicKey node = ai_pubKey exampleEntry" "address node = ai_address exampleEntry"
    by blast
  have z: "getZoneForAddress exampleExt a = Some ''0x00''" "isQuaiAddress exampleExt a" for a
    by (simp_all add: exampleExt_def)
  show ?thesis
    by (simp add: addAddress_def n z createAndStoreAddressInfo_def exampleWallet_def Let_def)
       (simp add: exampleEntry_def)
qed

lemma parentPath_example: "parentPath exampleDeps 994 = ''m/44'/994'' @ [apostrophe]"
  by (simp add: exampleDeps_def string_of_nat.simps [of 994] string_of_nat.simps [of 99]
        string_of_nat.simps [of 9] digit_char_def)

lemma deserialize_root_example:
  "deserialize_root exampleDeps exampleSerialized = Inr exampleRoot"
  "deserialize_root exampleDeps tamperedSerialized = Inr exampleRoot"
  "deserialize_root exampleDeps mismatchSerialized = Inr exampleRoot"
  using parentPath_example
  by (simp_all add: deserialize_root_def exampleSerialized_def tamperedSerialized_def
        mismatchSerialized_def exampleRoot_def)
     (simp_all add: exampleDeps_def)

lemma deserialize_example: "deserialize exampleExt exampleDeps exampleSerialized = Inr exampleWallet"
  by (simp add: deserialize_def deserialize_root_example)
     (simp add: exampleSerialized_def addAddress_example exampleEntry_fields)

theorem deserialize_cross_validation_witness:
  "deserialize exampleExt exampleDeps exampleSerialized = Inr exampleWallet \<and>
   list_all (rederived exampleExt exampleDeps exampleRoot) (s_addresses exampleSerialized) \<and>
   \<not> list_all (rederived exampleExt exampleDeps exampleRoot) (s_addresses mismatchSerialized) \<and>
   (\<exists>err. deserialize exampleExt exampleDeps mismatchSerialized = Inl err \<and> mismatchError err)"
proof -
  let ?bad = "exampleEntry\<lparr>ai_address := ''0x00000000000000000000000000000000000000ff''\<rparr>"
  have root: "root exampleWallet = exampleRoot"
    by (simp add: exampleWallet_def)
  from deserialize_cross_validation [of exampleExt exampleDeps exampleSerialized exampleWallet]
    deserialize_example root
  have a: "list_all (rederived exampleExt exampleDeps exampleRoot) (s_addresses exampleSerialized)"
    by simp
  have add: "addAddress exampleExt exampleDeps \<lparr>root = exampleRoot, addresses = []\<rparr>
      (ai_account ?bad) (ai_index ?bad) = (Inr exampleEntry, exampleWallet)"
    using addAddress_example by (simp add: exampleEntry_fields)
  have diff: "ai_address ?bad \<noteq> ai_address exampleEntry"
    by (simp add: exampleEntry_def)
  have sa: "s_addresses mismatchSerialized = [] @ ?bad # []"
    by (simp add: mismatchSerialized_def)
  from deserialize_cross_validation [of exampleExt exampleDeps mismatchSerialized exampleWallet
      exampleRoot "[]" ?bad "[]" "\<lparr>root = exampleRoot, addresses = []\<rparr>" exampleEntry exampleWallet]
    deserialize_root_example(3) sa add diff
  have b: "\<exists>err. deserialize exampleExt exampleDeps mismatchSerialized = Inl err \<and> mismatchError err"
    by simp
  from deserialize_cross_validation [of exampleExt exampleDeps mismatchSerialized exampleWallet] b
  have c: "\<not> list_all (rederived exampleExt exampleDeps exampleRoot) (s_addresses mismatchSerialized)"
    using deriveAddressNode_example
    by (auto simp: mismatchSerialized_def rederived_def exampleEntry_def)
  from deserialize_example a b c show ?thesis by blast
qed

text \<open>
  C5 as stated fails: a stored entry with a wrong address whose index is already used is
  rejected with the \<open>already exists\<close> error of \<open>_addAddress\<close>, not with a mismatch error.
\<close>

theorem deserialize_counterexample:
  "deserialize exampleExt exampleDeps tamperedSerialized = Inl (AddressExists 5) \<and>
   \<not> mismatchError (AddressExists 5) \<and>
   \<not> list_all (rederived exampleExt exampleDeps exampleRoot) (s_addresses tamperedSerialized)"
proof -
  have used: "addAddress exampleExt exampleDeps exampleWallet 0 5 = (Inl (AddressExists 5), exampleWallet)"
    by (simp add: addAddress_def exampleWallet_def exampleEntry_def)
  have "deserialize exampleExt exampleDeps tamperedSerialized = Inl (AddressExists 5)"
    by (simp add: deserialize_def deserialize_root_example)
       (simp add: tamperedSerialized_def addAddress_example used exampleEntry_fields)
  moreover have "\<not> list_all (rederived exampleExt exampleDeps exampleRoot) (s_addresses tamperedSerialized)"
    using deriveAddressNode_example
    by (auto simp: tamperedSerialized_def rederived_def exampleEntry_def)
  ultimately show ?thesis by (simp add: mismatchError_def)
qed


section \<open>Wallet.fromPhrase: results\<close>

lemma Wallet_fromPhrase_cases:
  "Wallet_fromPhrase Q U phrase p =
     (if length (split_slash p) < 3 then Inl IncompletePath
      else if coinTypeOf (split_slash p) = Some 994 then map_sum id QuaiHD (Q phrase p)
      else if coinTypeOf (split_slash p) = Some 969 then map_sum id QiHD (U phrase p)
      else Inl (UnsupportedCoinType (coinTypeOf (split_slash p))))"
  by (simp add: Wallet_fromPhrase_def Let_def map_sum_def split: sum.splits)

lemma derivePath_components_total:
  assumes "\<And>n idx. idx \<le> 0xffffffff \<Longrightarrow> \<exists>n'. dc n idx = Inr n'"
    and "list_all okComponent segs"
  shows "\<exists>n'. derivePath_components dc n segs = Inr n'"
  using assms(2)
proof (induction segs arbitrary: n)
  case Nil
  then show ?case by simp
next
  case (Cons seg rest)
  show ?case
  proof (cases "digits seg")
    case True
    with Cons.prems have "decimal seg \<le> 0xffffffff" by (simp add: okComponent_def)
    from assms(1) [OF this] obtain child where "dc n (decimal seg) = Inr child" by blast
    with True Cons show ?thesis by simp
  next
    case False
    with Cons.prems have h: "seg \<noteq> []" "last seg = apostrophe" "digits (butlast seg)"
      "HardenedBit + decimal (butlast seg) \<le> 0xffffffff"
      by (simp_all add: okComponent_def)
    from assms(1) [OF h(4)] obtain child
      where "dc n (HardenedBit + decimal (butlast seg)) = Inr child" by blast
    with False h Cons show ?thesis by simp
  qed
qed

lemma string_of_nat_0: "string_of_nat 0 = ''0''"
  by (simp add: string_of_nat.simps digit_char_def)

lemma split_example_paths:
  "split_slash ''m'' = [''m'']"
  "split_slash (quaiHDAccountPath 0) = [''m'', [CHR ''4'', CHR ''4'', CHR 0x27], [CHR ''9'', CHR ''9'', CHR ''4'', CHR 0x27], [CHR ''0'', CHR 0x27], ''0'']"
  "split_slash (qiHDAccountPath 0 False) = [''m'', [CHR ''4'', CHR ''4'', CHR 0x27], [CHR ''9'', CHR ''6'', CHR ''9'', CHR 0x27], [CHR ''0'', CHR 0x27], ''0'']"
  "split_slash ethereumPath = [''m'', [CHR ''4'', CHR ''4'', CHR 0x27], [CHR ''6'', CHR ''0'', CHR 0x27], [CHR ''0'', CHR 0x27], ''0'', ''0'']"
  "split_slash examplePath = [''m'', [CHR ''4'', CHR ''4'', CHR 0x27], [CHR ''9'', CHR ''9'', CHR ''4'', CHR 0x27], [CHR ''0'', CHR 0x27], ''0'', ''0'']"
  by (simp_all add: examplePath_def ethereumPath_def apostrophe_def quaiHDAccountPath_def qiHDAccountPath_def string_of_nat_0)

lemma parseInt_examples:
  "parseInt ''994'' = Some 994" "parseInt ''969'' = Some 969" "parseInt ''60'' = Some 60"
  by (simp_all add: parseInt_def isWhiteSpace_def parseUnsigned_def parseDigits_def radixDigit_def
        digitValue_def Let_def)

lemma length_examples:
  "length (split_slash ''m'') = 1" "length (split_slash (quaiHDAccountPath 0)) = 5"
  "length (split_slash (qiHDAccountPath 0 False)) = 5" "length (split_slash ethereumPath) = 6"
  "length (split_slash examplePath) = 6"
  by (simp_all add: split_example_paths)

lemma coinType_examples:
  "coinTypeOf (split_slash (quaiHDAccountPath 0)) = Some 994"
  "coinTypeOf (split_slash (qiHDAccountPath 0 False)) = Some 969"
  "coinTypeOf (split_slash ethereumPath) = Some 60"
  "coinTypeOf (split_slash examplePath) = Some 994"
  by (simp_all add: split_example_paths coinTypeOf_def parseInt_examples apostrophe_def)

lemma isValidPath_examples:
  "isValidPath (quaiHDAccountPath 0)" "isValidPath (qiHDAccountPath 0 False)" "\<not> isValidPath examplePath"
  by (simp_all add: isValidPath_def split_example_paths digits_def is_digit_def apostrophe_def)

lemma okComponent_examples:
  "hd (split_slash (quaiHDAccountPath 0)) = ''m''"
  "list_all okComponent (tl (split_slash (quaiHDAccountPath 0)))"
  "hd (split_slash (qiHDAccountPath 0 False)) = ''m''"
  "list_all okComponent (tl (split_slash (qiHDAccountPath 0 False)))"
  by (simp_all add: split_example_paths okComponent_def digits_def is_digit_def apostrophe_def
        decimal_def HardenedBit_def)

lemma fromSeed_example: "\<exists>n. fromSeed exampleExt seed mn = Inr n \<or> \<not> (16 \<le> length seed \<and> length seed \<le> 64)"
  by (simp add: fromSeed_def new_HDNodeWallet_def Let_def)

lemma HDNodeWallet_fromPhrase_example:
  assumes "isValidPath p" and "hd (split_slash p) = ''m''" and "list_all okComponent (tl (split_slash p))"
  shows "\<exists>n. HDNodeWallet_fromPhrase exampleExt examplePhrase p = Inr n"
proof -
  have seed: "mnemonicSeed exampleExt examplePhrase =
      Inr (take 64 (map (of_nat \<circ> of_char) examplePhrase @ replicate 64 0))"
    by (simp add: exampleExt_def)
  have "length (take 64 (map (of_nat \<circ> of_char) examplePhrase @ replicate 64 (0 :: byte))) = 64"
    by simp
  then obtain r where r: "fromSeed exampleExt (take 64 (map (of_nat \<circ> of_char) examplePhrase @ replicate 64 0))
      (Some examplePhrase) = Inr r"
    using fromSeed_example [of "take 64 (map (of_nat \<circ> of_char) examplePhrase @ replicate 64 0)" "Some examplePhrase"]
    by auto
  from derivePath_components_total [of "HDNodeWallet_deriveChild exampleExt", OF _ assms(3)]
    HDNodeWallet_deriveChild_exampleExt
  obtain n where "derivePath_components (HDNodeWallet_deriveChild exampleExt) r (tl (split_slash p)) = Inr n"
    by blast
  then have "HDNodeWallet_derivePath exampleExt r p = Inr n"
    by (simp add: HDNodeWallet_derivePath_def derivePath_def assms(2))
  with assms(1) seed r show ?thesis
    by (simp add: HDNodeWallet_fromPhrase_def)
qed

text \<open>
  C9, as amended. For every phrase and path, \<open>Wallet.fromPhrase\<close> dispatches on the coin
  type, the integer that \<open>parseInt\<close> reads from the third path segment: a path with fewer
  than three segments fails; coin type 994 hands phrase and path to the constructor of the
  account-based (Quai) wallet and returns its outcome, a Quai wallet or the error that
  constructor throws; coin type 969 does the same with the constructor of the UTXO (Qi)
  wallet; every other coin type fails with an error and no constructor is called.
\<close>

theorem Wallet_fromPhrase_dispatch:
  "(length (split_slash p) < 3 \<longrightarrow> Wallet_fromPhrase Q U phrase p = Inl IncompletePath) \<and>
   (3 \<le> length (split_slash p) \<and> coinTypeOf (split_slash p) = Some 994 \<longrightarrow>
      Wallet_fromPhrase Q U phrase p = map_sum id QuaiHD (Q phrase p)) \<and>
   (3 \<le> length (split_slash p) \<and> coinTypeOf (split_slash p) = Some 969 \<longrightarrow>
      Wallet_fromPhrase Q U phrase p = map_sum id QiHD (U phrase p)) \<and>
   (3 \<le> length (split_slash p) \<and> coinTypeOf (split_slash p) \<noteq> Some 994 \<and>
    coinTypeOf (split_slash p) \<noteq> Some 969 \<longrightarrow>
      Wallet_fromPhrase Q U phrase p = Inl (UnsupportedCoinType (coinTypeOf (split_slash p))))"
  by (simp add: Wallet_fromPhrase_cases)

theorem Wallet_fromPhrase_dispatch_witness:
  "Wallet_fromPhrase (HDNodeWallet_fromPhrase exampleExt) (HDNodeWallet_fromPhrase exampleExt)
     examplePhrase ''m'' = Inl IncompletePath \<and>
   (case Wallet_fromPhrase (HDNodeWallet_fromPhrase exampleExt) (HDNodeWallet_fromPhrase exampleExt)
           examplePhrase (quaiHDAccountPath 0) of
      Inr (QuaiHD wallet) \<Rightarrow> True | _ \<Rightarrow> False) \<and>
   (case Wallet_fromPhrase (HDNodeWallet_fromPhrase exampleExt) (HDNodeWallet_fromPhrase exampleExt)
           examplePhrase (qiHDAccountPath 0 False) of
      Inr (QiHD wallet) \<Rightarrow> True | _ \<Rightarrow> False) \<and>
   Wallet_fromPhrase (HDNodeWallet_fromPhrase exampleExt) (HDNodeWallet_fromPhrase exampleExt)
     examplePhrase ethereumPath = Inl (UnsupportedCoinType (Some 60))"
proof -
  let ?F = "HDNodeWallet_fromPhrase exampleExt"
  obtain q where q: "?F examplePhrase (quaiHDAccountPath 0) = Inr q"
    using HDNodeWallet_fromPhrase_example [OF isValidPath_examples(1) okComponent_examples(1,2)]
    by blast
  obtain u where u: "?F examplePhrase (qiHDAccountPath 0 False) = Inr u"
    using HDNodeWallet_fromPhrase_example [OF isValidPath_examples(2) okComponent_examples(3,4)]
    by blast
  from Wallet_fromPhrase_dispatch [of "''m''" ?F ?F examplePhrase]
  have a: "Wallet_fromPhrase ?F ?F examplePhrase ''m'' = Inl IncompletePath"
    by (simp add: length_examples)
  from Wallet_fromPhrase_dispatch [of "quaiHDAccountPath 0" ?F ?F examplePhrase]
  have b: "Wallet_fromPhrase ?F ?F examplePhrase (quaiHDAccountPath 0) = Inr (QuaiHD q)"
    by (simp add: length_examples coinType_examples q)
  from Wallet_fromPhrase_dispatch [of "qiHDAccountPath 0 False" ?F ?F examplePhrase]
  have c: "Wallet_fromPhrase ?F ?F examplePhrase (qiHDAccountPath 0 False) = Inr (QiHD u)"
    by (simp add: length_examples coinType_examples u)
  from Wallet_fromPhrase_dispatch [of ethereumPath ?F ?F examplePhrase]
  have d: "Wallet_fromPhrase ?F ?F examplePhrase ethereumPath = Inl (UnsupportedCoinType (Some 60))"
    by (simp add: length_examples coinType_examples)
  from a b c d show ?thesis by simp
qed

text \<open>
  C9 as stated fails: a path of coin type 994 need not give a wallet. With
  \<open>HDNodeWallet.fromPhrase\<close> as the constructor, the address-level path
  \<open>m/44'/994'/0'/0/0\<close> is rejected by \<open>isValidPath\<close>.
\<close>

theorem Wallet_fromPhrase_counterexample:
  "coinTypeOf (split_slash examplePath) = Some 994 \<and>
   Wallet_fromPhrase (HDNodeWallet_fromPhrase exampleExt) (HDNodeWallet_fromPhrase exampleExt)
     examplePhrase examplePath = Inl InvalidPath"
  by (simp add: Wallet_fromPhrase_cases coinType_examples isValidPath_examples
        length_examples HDNodeWallet_fromPhrase_def)


end
